theory Spec2Isabelle
  imports Complex_Main "HOL-Library.Char_ord" "HOL-Library.List_Lexorder"
begin


section \<open>Strings\<close>

text \<open>
  Python strings are modelled as \<open>string\<close>: one \<open>char\<close> per code point, for the code
  points 0 to 255. The string methods the program calls are modelled on that range.
\<close>

definition is_space :: "char \<Rightarrow> bool" where
  \<comment> \<open>\<open>str.isspace\<close> on one code point below 256\<close>
  "is_space c = ((of_char c :: nat) \<in> {9, 10, 11, 12, 13, 28, 29, 30, 31, 32, 133, 160})"

definition strip :: "string \<Rightarrow> string" where
  \<comment> \<open>\<open>s.strip()\<close>\<close>
  "strip s = rev (dropWhile is_space (rev (dropWhile is_space s)))"

definition lower_char :: "char \<Rightarrow> char" where
  "lower_char c =
     (let n = (of_char c :: nat)
      in if (65 \<le> n \<and> n \<le> 90) \<or> (192 \<le> n \<and> n \<le> 222 \<and> n \<noteq> 215)
         then char_of (n + 32) else c)"

definition lower :: "string \<Rightarrow> string" where
  \<comment> \<open>\<open>s.lower()\<close>\<close>
  "lower s = map lower_char s"

fun starts_with :: "string \<Rightarrow> string \<Rightarrow> bool" where
  "starts_with s [] = True"
| "starts_with [] (c # q) = False"
| "starts_with (d # s) (c # q) = (d = c \<and> starts_with s q)"

fun contains :: "string \<Rightarrow> string \<Rightarrow> bool" where
  \<comment> \<open>\<open>contains s q\<close> is Python's \<open>q in s\<close> on two strings\<close>
  "contains [] q = (q = [])"
| "contains (d # s) q = (starts_with (d # s) q \<or> contains s q)"

definition is_digit :: "char \<Rightarrow> bool" where
  "is_digit c = (48 \<le> (of_char c :: nat) \<and> (of_char c :: nat) \<le> 57)"

definition digit_val :: "char \<Rightarrow> nat" where
  "digit_val c = of_char c - 48"

section \<open>Calendar dates and \<open>strptime\<close>\<close>

type_synonym date = "nat \<times> nat \<times> nat"

fun date_less :: "date \<Rightarrow> date \<Rightarrow> bool" where
  \<comment> \<open>\<open><\<close> on \<open>datetime.date\<close>: year, then month, then day\<close>
  "date_less (y, m, d) (y', m', d') =
     (y < y' \<or> (y = y' \<and> (m < m' \<or> (m = m' \<and> d < d'))))"

definition is_leap :: "nat \<Rightarrow> bool" where
  "is_leap y = (y mod 4 = 0 \<and> (y mod 100 \<noteq> 0 \<or> y mod 400 = 0))"

definition days_in_month :: "nat \<Rightarrow> nat \<Rightarrow> nat" where
  "days_in_month y m =
     (if m = 2 then (if is_leap y then 29 else 28)
      else if m \<in> {4, 6, 9, 11} then 30 else 31)"

text \<open>
  \<open>datetime.strptime(s, "%Y-%m-%d")\<close> is the standard library's parser. It matches the
  regular expression
  \<^verbatim>\<open>(\d\d\d\d)-(1[0-2]|0[1-9]|[1-9])-(3[0-1]|[1-2]\d|0[1-9]|[1-9]| [1-9])\<close>
  at the start of the string, raises \<open>ValueError\<close> when it does not match or when text
  remains after the match, and raises \<open>ValueError\<close> again when year, month and day are
  not a date of the calendar (years 1 to 9999). The leading zero of month and day is
  optional. \<open>None\<close> stands for the \<open>ValueError\<close>.
\<close>

fun parse_day :: "string \<Rightarrow> nat option" where
  "parse_day [a, b] =
     (if a = CHR ''3'' \<and> (b = CHR ''0'' \<or> b = CHR ''1'') then Some (30 + digit_val b)
      else if (a = CHR ''1'' \<or> a = CHR ''2'') \<and> is_digit b then Some (10 * digit_val a + digit_val b)
      else if a = CHR ''0'' \<and> is_digit b \<and> b \<noteq> CHR ''0'' then Some (digit_val b)
      else if a = CHR '' '' \<and> is_digit b \<and> b \<noteq> CHR ''0'' then Some (digit_val b)
      else None)"
| "parse_day [a] = (if is_digit a \<and> a \<noteq> CHR ''0'' then Some (digit_val a) else None)"
| "parse_day s = None"

definition parse_month_day :: "string \<Rightarrow> (nat \<times> nat) option" where
  "parse_month_day s =
     (case s of
        a # b # c # r \<Rightarrow>
          (if ((a = CHR ''1'' \<and> b \<in> set ''012'') \<or> (a = CHR ''0'' \<and> is_digit b \<and> b \<noteq> CHR ''0''))
              \<and> c = CHR ''-''
           then map_option (Pair (10 * digit_val a + digit_val b)) (parse_day r)
           else if is_digit a \<and> a \<noteq> CHR ''0'' \<and> b = CHR ''-''
           then map_option (Pair (digit_val a)) (parse_day (c # r))
           else None)
      | _ \<Rightarrow> None)"

definition strptime_ymd :: "string \<Rightarrow> date option" where
  "strptime_ymd s =
     (case s of
        y1 # y2 # y3 # y4 # dash # r \<Rightarrow>
          (if is_digit y1 \<and> is_digit y2 \<and> is_digit y3 \<and> is_digit y4 \<and> dash = CHR ''-''
           then (case parse_month_day r of
                   None \<Rightarrow> None
                 | Some (m, d) \<Rightarrow>
                     (let y = 1000 * digit_val y1 + 100 * digit_val y2 + 10 * digit_val y3 + digit_val y4
                      in if 1 \<le> y \<and> d \<le> days_in_month y m then Some (y, m, d) else None))
           else None)
      | _ \<Rightarrow> None)"

section \<open>Values read from and written to the JSON files\<close>

datatype pyfloat = Fin rat | PInf | NInf | NaN

datatype json =
    JNull
  | JBool bool
  | JInt int
  | JFloat pyfloat
  | JStr string
  | JArr "json list"
  | JObj "(string \<times> json) list"

datatype py_error =
    AttributeError | TypeError | KeyError | ValueError | OverflowError | OSError | TclError

datatype dialog =
    ShowError string string
  | ShowInfo string string
  | ShowWarning string string

definition dict_get :: "(string \<times> json) list \<Rightarrow> string \<Rightarrow> json option" where
  \<comment> \<open>\<open>d.get(k)\<close>, with \<open>None\<close> for a missing key\<close>
  "dict_get d k = map_of d k"

fun dict_set :: "string \<Rightarrow> 'v \<Rightarrow> (string \<times> 'v) list \<Rightarrow> (string \<times> 'v) list" where
  \<comment> \<open>\<open>d[k] = v\<close> on a dict in insertion order\<close>
  "dict_set k v [] = [(k, v)]"
| "dict_set k v ((k', v') # rest) =
     (if k' = k then (k, v) # rest else (k', v') # dict_set k v rest)"

text \<open>
  \<open>json.dump\<close> and \<open>json.load\<close> belong to the standard library; the program's functions
  take them as a parameter. \<open>json_load\<close> gives \<open>None\<close> where \<open>json.load\<close> raises.
\<close>

record json_lib =
  json_dump :: "json \<Rightarrow> string"
  json_load :: "string \<Rightarrow> json option"

text \<open>
  The two files of the program. A file is absent (\<open>None\<close>) or holds text; \<open>writable\<close>
  tells whether opening a file for writing succeeds.
\<close>

record files =
  treatments_file :: "string option"
  appointments_file :: "string option"
  writable :: bool

section \<open>Appointments persistence\<close>

definition load_appointments :: "json_lib \<Rightarrow> files \<Rightarrow> json" where
  "load_appointments lib fs =
     (case appointments_file fs of
        None \<Rightarrow> JArr []
      | Some text \<Rightarrow> (case json_load lib text of None \<Rightarrow> JArr [] | Some v \<Rightarrow> v))"

definition save_appointments :: "json_lib \<Rightarrow> files \<Rightarrow> json \<Rightarrow> dialog list \<times> files" where
  "save_appointments lib fs appointments =
     (if writable fs
      then ([], fs\<lparr>appointments_file := Some (json_dump lib appointments)\<rparr>)
      else ([ShowError ''Error'' ''Failed to save appointments''], fs))"

section \<open>Booking an appointment\<close>

definition appt_json :: "string \<Rightarrow> string \<Rightarrow> string \<Rightarrow> json" where
  \<comment> \<open>the dict literal \<open>{"name": n, "phone": p, "date": d}\<close>\<close>
  "appt_json n p d = JObj [(''name'', JStr n), (''phone'', JStr p), (''date'', JStr d)]"

definition save_appointment ::
  "json_lib \<Rightarrow> date \<Rightarrow> files \<Rightarrow> string \<Rightarrow> string \<Rightarrow> string \<Rightarrow> (py_error + dialog list) \<times> files" where
  "save_appointment lib today fs entry_name entry_phone entry_date =
     (let name = strip entry_name; phone = strip entry_phone; date_str = strip entry_date
      in if name = [] \<or> phone = [] \<or> date_str = []
         then (Inr [ShowError ''Input Error'' ''Please fill all fields.''], fs)
         else (case strptime_ymd date_str of
                 None \<Rightarrow> (Inr [ShowError ''Input Error'' ''Invalid date format. Use YYYY-MM-DD.''], fs)
               | Some appt_date \<Rightarrow>
                   if date_less appt_date today
                   then (Inr [ShowError ''Input Error'' ''Appointment date cannot be in the past.''], fs)
                   else (case load_appointments lib fs of
                           JArr appointments \<Rightarrow>
                             (let (msgs, fs') =
                                    save_appointments lib fs
                                      (JArr (appointments @ [appt_json name phone date_str]))
                              in (Inr (msgs @ [ShowInfo ''Success''
                                     (''Appointment booked for '' @ name @ '' on '' @ date_str)]), fs'))
                         | _ \<Rightarrow> (Inl AttributeError, fs))))"

section \<open>The upcoming list, as values\<close>

definition get_default :: "(string \<times> json) list \<Rightarrow> string \<Rightarrow> json \<Rightarrow> json" where
  \<comment> \<open>\<open>d.get(k, default)\<close>\<close>
  "get_default d k v = (case dict_get d k of None \<Rightarrow> v | Some w \<Rightarrow> w)"

definition appt_date_of :: "json \<Rightarrow> date option" where
  \<comment> \<open>\<open>datetime.strptime(appt.get("date", ""), "%Y-%m-%d").date()\<close>; \<open>None\<close> where it raises
      (no \<open>get\<close> on a value that is not a dict, a date that is not a string, a string
      that does not parse)\<close>
  "appt_date_of appt =
     (case appt of
        JObj d \<Rightarrow> (case get_default d ''date'' (JStr []) of JStr s \<Rightarrow> strptime_ymd s | _ \<Rightarrow> None)
      | _ \<Rightarrow> None)"

definition is_upcoming :: "date \<Rightarrow> json \<Rightarrow> bool" where
  "is_upcoming today appt =
     (case appt_date_of appt of None \<Rightarrow> False | Some appt_date \<Rightarrow> \<not> date_less appt_date today)"

definition date_key :: "json \<Rightarrow> string" where
  \<comment> \<open>the sort key \<open>x.get("date")\<close>; it is a string for every record that passed the filter\<close>
  "date_key x =
     (case x of
        JObj d \<Rightarrow> (case dict_get d ''date'' of Some (JStr s) \<Rightarrow> s | _ \<Rightarrow> [])
      | _ \<Rightarrow> [])"

definition iter_json :: "json \<Rightarrow> py_error + json list" where
  \<comment> \<open>the items a \<open>for\<close> loop over the value visits\<close>
  "iter_json v =
     (case v of
        JArr xs \<Rightarrow> Inr xs
      | JObj d \<Rightarrow> Inr (map (\<lambda>(k, w). JStr k) d)
      | JStr s \<Rightarrow> Inr (map (\<lambda>c. JStr [c]) s)
      | _ \<Rightarrow> Inl TypeError)"

definition rebuild_upcoming :: "date \<Rightarrow> json list \<Rightarrow> json list" where
  "rebuild_upcoming today saved2 = sort_key date_key (filter (is_upcoming today) saved2)"

section \<open>Searching the upcoming list\<close>

definition py_in :: "string \<Rightarrow> json \<Rightarrow> py_error + bool" where
  \<comment> \<open>\<open>q in v\<close> for a string \<open>q\<close>\<close>
  "py_in q v =
     (case v of
        JStr s \<Rightarrow> Inr (contains s q)
      | JArr xs \<Rightarrow> Inr (JStr q \<in> set xs)
      | JObj d \<Rightarrow> Inr (q \<in> set (map fst d))
      | _ \<Rightarrow> Inl TypeError)"

definition matches :: "string \<Rightarrow> json \<Rightarrow> py_error + bool" where
  \<comment> \<open>\<open>q in appt.get("name", "").lower() or q in appt.get("phone", "")\<close>\<close>
  "matches q appt =
     (case appt of
        JObj d \<Rightarrow>
          (case get_default d ''name'' (JStr []) of
             JStr n \<Rightarrow> if contains (lower n) q then Inr True
                       else py_in q (get_default d ''phone'' (JStr []))
           | _ \<Rightarrow> Inl AttributeError)
      | _ \<Rightarrow> Inl AttributeError)"

fun filter_matches :: "string \<Rightarrow> json list \<Rightarrow> py_error + json list" where
  "filter_matches q [] = Inr []"
| "filter_matches q (appt # rest) =
     (case matches q appt of
        Inl e \<Rightarrow> Inl e
      | Inr keep \<Rightarrow>
          (case filter_matches q rest of
             Inl e \<Rightarrow> Inl e
           | Inr filtered \<Rightarrow> Inr (if keep then appt # filtered else filtered)))"

definition search_appointments :: "string \<Rightarrow> json list \<Rightarrow> py_error + json list" where
  \<comment> \<open>the list handed to \<open>populate_list\<close>\<close>
  "search_appointments search_var upcoming =
     (let q = lower (strip search_var)
      in if q = [] then Inr upcoming else filter_matches q upcoming)"

section \<open>Editing an appointment\<close>

text \<open>
  The popup holds the list \<open>upcoming\<close> of the records it shows. \<open>sel\<close> is the row
  selected in the list box (\<open>None\<close> when no row is selected); \<open>new_date_str\<close> and
  \<open>new_phone\<close> are the answers of the two \<open>askstring\<close> dialogs (\<open>None\<close> when cancelled).
  The model follows the function up to the dialogs it shows, the exception it raises and the
  appointments file it leaves.
\<close>

datatype 'a flow = Raises py_error | Returns "dialog list" | Continues 'a

definition is_obj :: "json \<Rightarrow> bool" where
  "is_obj v = (case v of JObj d \<Rightarrow> True | _ \<Rightarrow> False)"

definition edit_date ::
  "date \<Rightarrow> (string \<times> json) list \<Rightarrow> string option \<Rightarrow> dialog + (string \<times> json) list" where
  \<comment> \<open>the block under \<open>if new_date_str:\<close>, on the dict \<open>appt_to_edit\<close>\<close>
  "edit_date today appt_to_edit new_date_str =
     (case new_date_str of
        None \<Rightarrow> Inr appt_to_edit
      | Some s \<Rightarrow>
          if s = [] then Inr appt_to_edit
          else (case strptime_ymd s of
                  None \<Rightarrow> Inl (ShowError ''Invalid Date''
                            ''Please enter a valid date in YYYY-MM-DD format.'')
                | Some new_date \<Rightarrow>
                    if date_less new_date today
                    then Inl (ShowError ''Invalid Date'' ''Appointment date cannot be in the past.'')
                    else Inr (dict_set ''date'' (JStr s) appt_to_edit)))"

definition edit_phone :: "(string \<times> json) list \<Rightarrow> string option \<Rightarrow> (string \<times> json) list" where
  \<comment> \<open>the block under \<open>if new_phone:\<close>\<close>
  "edit_phone appt_to_edit new_phone =
     (case new_phone of
        None \<Rightarrow> appt_to_edit
      | Some p \<Rightarrow> if p = [] then appt_to_edit else dict_set ''phone'' (JStr p) appt_to_edit)"

definition edit_prepare ::
  "date \<Rightarrow> json list \<Rightarrow> string \<Rightarrow> nat option \<Rightarrow> string option \<Rightarrow> string option
     \<Rightarrow> ((string \<times> json) list) flow" where
  \<comment> \<open>from the selection to the dict \<open>appt_to_edit\<close> after the two dialogs. The list
      \<open>current_list\<close> is computed from every record of \<open>upcoming\<close>, also for an empty
      query; the two prompts read \<open>appt_to_edit['date']\<close> and \<open>appt_to_edit['phone']\<close>\<close>
  "edit_prepare today upcoming search_var sel new_date_str new_phone =
     (case sel of
        None \<Rightarrow> Returns [ShowWarning ''No Selection'' ''Please select an appointment to edit.'']
      | Some index \<Rightarrow>
          (case filter_matches (lower (strip search_var)) upcoming of
             Inl e \<Rightarrow> Raises e
           | Inr current_list \<Rightarrow>
               if length current_list \<le> index then Returns []
               else (case current_list ! index of
                       JObj appt_to_edit \<Rightarrow>
                         (case dict_get appt_to_edit ''date'' of
                            None \<Rightarrow> Raises KeyError
                          | Some current_date \<Rightarrow>
                              (case edit_date today appt_to_edit new_date_str of
                                 Inl e \<Rightarrow> Returns [e]
                               | Inr dated \<Rightarrow>
                                   (case dict_get dated ''phone'' of
                                      None \<Rightarrow> Raises KeyError
                                    | Some current_phone \<Rightarrow> Continues (edit_phone dated new_phone))))
                     | _ \<Rightarrow> Raises TypeError)))"

definition get_value :: "json option \<Rightarrow> json" where
  \<comment> \<open>the value of \<open>d.get(k)\<close>: Python's \<open>None\<close> for a missing key\<close>
  "get_value x = (case x of None \<Rightarrow> JNull | Some v \<Rightarrow> v)"

definition same_name :: "(string \<times> json) list \<Rightarrow> json \<Rightarrow> bool" where
  \<comment> \<open>\<open>a.get("name") == appt_to_edit.get("name")\<close> for a dict \<open>a\<close>. The name of
      \<open>appt_to_edit\<close> is a string or is missing, since the record has passed the filter of
      \<open>current_list\<close>; \<open>==\<close> with a string or with \<open>None\<close> is equality of the two values\<close>
  "same_name appt_to_edit a =
     (case a of
        JObj d \<Rightarrow> get_value (dict_get d ''name'') = get_value (dict_get appt_to_edit ''name'')
      | _ \<Rightarrow> False)"

definition name_is :: "string \<Rightarrow> json \<Rightarrow> bool" where
  \<comment> \<open>\<open>a.get("name") == n\<close> for a string \<open>n\<close>\<close>
  "name_is n a = (case a of JObj d \<Rightarrow> dict_get d ''name'' = Some (JStr n) | _ \<Rightarrow> False)"

definition merged :: "json \<Rightarrow> string option \<Rightarrow> json" where
  \<comment> \<open>a field after its dialog: the answer, or the former value when the dialog gave none\<close>
  "merged v answer = (case answer of None \<Rightarrow> v | Some s \<Rightarrow> if s = [] then v else JStr s)"

definition new_record :: "(string \<times> json) list \<Rightarrow> py_error + json" where
  \<comment> \<open>the dict literal
      \<open>{"name": appt_to_edit["name"], "phone": appt_to_edit["phone"], "date": appt_to_edit["date"]}\<close>\<close>
  "new_record appt_to_edit =
     (case dict_get appt_to_edit ''name'' of
        None \<Rightarrow> Inl KeyError
      | Some n \<Rightarrow>
          (case dict_get appt_to_edit ''phone'' of
             None \<Rightarrow> Inl KeyError
           | Some p \<Rightarrow>
               (case dict_get appt_to_edit ''date'' of
                  None \<Rightarrow> Inl KeyError
                | Some d \<Rightarrow> Inr (JObj [(''name'', n), (''phone'', p), (''date'', d)]))))"

fun replace_first :: "(string \<times> json) list \<Rightarrow> json \<Rightarrow> json list \<Rightarrow> json list option" where
  \<comment> \<open>the second loop over \<open>saved\<close>; \<open>None\<close> when \<open>updated\<close> stays \<open>False\<close>\<close>
  "replace_first appt_to_edit new [] = None"
| "replace_first appt_to_edit new (a # rest) =
     (if same_name appt_to_edit a then Some (new # rest)
      else map_option ((#) a) (replace_first appt_to_edit new rest))"

definition update_saved :: "(string \<times> json) list \<Rightarrow> json \<Rightarrow> py_error + json list" where
  \<comment> \<open>from the reload of \<open>saved\<close> to the list handed to \<open>save_appointments\<close>. The first
      loop calls \<open>a.get\<close> on every element; the new dict is built where the second loop
      finds the name and, if it does not, for the \<open>append\<close>\<close>
  "update_saved appt_to_edit saved =
     (case saved of
        JArr xs \<Rightarrow>
          if list_all is_obj xs
          then (case new_record appt_to_edit of
                  Inl e \<Rightarrow> Inl e
                | Inr new \<Rightarrow>
                    Inr (case replace_first appt_to_edit new xs of
                           Some ys \<Rightarrow> ys
                         | None \<Rightarrow> xs @ [new]))
          else Inl AttributeError
      | JObj d \<Rightarrow> Inl AttributeError
      | JStr s \<Rightarrow> Inl AttributeError
      | _ \<Rightarrow> Inl TypeError)"

definition name_text :: "(string \<times> json) list \<Rightarrow> string" where
  \<comment> \<open>\<open>appt_to_edit['name']\<close> as the last message shows it; the name is a string where
      the message is reached\<close>
  "name_text appt_to_edit = (case dict_get appt_to_edit ''name'' of Some (JStr n) \<Rightarrow> n | _ \<Rightarrow> [])"

definition edit_selected ::
  "json_lib \<Rightarrow> date \<Rightarrow> files \<Rightarrow> json list \<Rightarrow> string \<Rightarrow> nat option \<Rightarrow> string option \<Rightarrow> string option
     \<Rightarrow> (py_error + dialog list) \<times> files" where
  "edit_selected lib today fs upcoming search_var sel new_date_str new_phone =
     (case edit_prepare today upcoming search_var sel new_date_str new_phone of
        Raises e \<Rightarrow> (Inl e, fs)
      | Returns msgs \<Rightarrow> (Inr msgs, fs)
      | Continues appt_to_edit \<Rightarrow>
          (case update_saved appt_to_edit (load_appointments lib fs) of
             Inl err \<Rightarrow> (Inl err, fs)
           | Inr saved \<Rightarrow>
               (let (msgs, fs') = save_appointments lib fs (JArr saved)
                in case iter_json (load_appointments lib fs') of
                     Inl err \<Rightarrow> (Inl err, fs')
                   | Inr saved2 \<Rightarrow>
                       (case search_appointments search_var (rebuild_upcoming today saved2) of
                          Inl err \<Rightarrow> (Inl err, fs')
                        | Inr shown \<Rightarrow>
                            (Inr (msgs @ [ShowInfo ''Updated''
                               (''Appointment updated for '' @ name_text appt_to_edit @ ''.'')]),
                             fs')))))"

section \<open>Viewing the upcoming appointments, with the records as objects\<close>

text \<open>
  The records of the loaded list are objects: a heap is the list of the objects allocated
  so far, an address is an index into it. \<open>appt.copy()\<close> allocates a new object.
\<close>

type_synonym heap = "json list"

definition deref :: "heap \<Rightarrow> nat \<Rightarrow> json option" where
  "deref h a = (if a < length h then Some (h ! a) else None)"

fun collect_upcoming :: "date \<Rightarrow> heap \<Rightarrow> nat list \<Rightarrow> heap \<times> nat list" where
  "collect_upcoming today h [] = (h, [])"
| "collect_upcoming today h (appt # rest) =
     (case deref h appt of
        Some v \<Rightarrow>
          if is_upcoming today v
          then (let (h', upcoming) = collect_upcoming today (h @ [v]) rest
                in (h', length h # upcoming))
          else collect_upcoming today h rest
      | None \<Rightarrow> collect_upcoming today h rest)"

definition key_at :: "heap \<Rightarrow> nat \<Rightarrow> string" where
  "key_at h r = (case deref h r of Some v \<Rightarrow> date_key v | None \<Rightarrow> [])"

datatype view = Message dialog | Listing heap "nat list"

definition view_appointments :: "date \<Rightarrow> heap \<Rightarrow> nat list \<Rightarrow> view" where
  "view_appointments today h appointments =
     (if appointments = [] then Message (ShowInfo ''Appointments'' ''No appointments found.'')
      else (let (h', upcoming) = collect_upcoming today h appointments
            in if upcoming = [] then Message (ShowInfo ''Appointments'' ''No upcoming appointments.'')
               else Listing h' (sort_key (key_at h') upcoming)))"

section \<open>Records with text fields\<close>

text \<open>
  An appointment record as booking writes it has strings under \<open>name\<close> and \<open>phone\<close>.
  \<open>has_text_fields\<close> asks that of a value, allowing a missing key, for which \<open>get\<close>
  with its default gives the empty string; \<open>text_of\<close> reads such a field.
\<close>

definition has_text_fields :: "json \<Rightarrow> bool" where
  "has_text_fields a =
     (case a of
        JObj d \<Rightarrow> (case dict_get d ''name'' of None \<Rightarrow> True | Some (JStr n) \<Rightarrow> True | _ \<Rightarrow> False)
                \<and> (case dict_get d ''phone'' of None \<Rightarrow> True | Some (JStr p) \<Rightarrow> True | _ \<Rightarrow> False)
      | _ \<Rightarrow> False)"

definition text_of :: "string \<Rightarrow> json \<Rightarrow> string" where
  "text_of k a =
     (case a of
        JObj d \<Rightarrow> (case dict_get d k of Some (JStr s) \<Rightarrow> s | _ \<Rightarrow> [])
      | _ \<Rightarrow> [])"

section \<open>A stand-in for the JSON library\<close>

text \<open>
  For evaluation on concrete inputs: \<open>lib_table\<close> is a library that knows the listed texts
  and values, writes a listed value as its text and reads a listed text as its value.
\<close>

definition lib_table :: "(string \<times> json) list \<Rightarrow> json_lib" where
  "lib_table table =
     \<lparr>json_dump = (\<lambda>w. case find (\<lambda>(text, v). v = w) table of
                            None \<Rightarrow> [] | Some (text, v) \<Rightarrow> text),
      json_load = map_of table\<rparr>"

section \<open>The treatment catalog\<close>

text \<open>
  \<open>int(v)\<close> on a value read from JSON. For a string, \<open>int\<close> skips at both ends the
  characters tab, line feed, vertical tab, form feed, carriage return and blank, and the
  whitespace above U+007F (U+0085 and U+00A0 below 256), but not U+001C to U+001F, which
  \<open>str.strip\<close> does remove. It then takes an optional sign and decimal digits, with single
  underscores allowed between digits, and raises \<open>ValueError\<close> for anything else and for
  more than 4300 digits.
\<close>

definition int_space :: "char \<Rightarrow> bool" where
  "int_space c = ((of_char c :: nat) \<in> {9, 10, 11, 12, 13, 32, 133, 160})"

definition int_strip :: "string \<Rightarrow> string" where
  "int_strip s = rev (dropWhile int_space (rev (dropWhile int_space s)))"

fun parse_digits :: "bool \<Rightarrow> nat \<Rightarrow> string \<Rightarrow> nat option" where
  "parse_digits after_digit acc [] = (if after_digit then Some acc else None)"
| "parse_digits after_digit acc (c # cs) =
     (if is_digit c then parse_digits True (10 * acc + digit_val c) cs
      else if c = CHR ''_'' \<and> after_digit then parse_digits False acc cs
      else None)"

definition parse_unsigned :: "string \<Rightarrow> nat option" where
  \<comment> \<open>the digits after the sign, at most 4300 of them\<close>
  "parse_unsigned cs =
     (if 4300 < length (filter is_digit cs) then None else parse_digits False 0 cs)"

definition int_of_str :: "string \<Rightarrow> py_error + int" where
  "int_of_str s =
     (case int_strip s of
        [] \<Rightarrow> Inl ValueError
      | c # cs \<Rightarrow>
          if c = CHR ''-'' then (case parse_unsigned cs of
                                  None \<Rightarrow> Inl ValueError | Some n \<Rightarrow> Inr (- int n))
          else if c = CHR ''+'' then (case parse_unsigned cs of
                                  None \<Rightarrow> Inl ValueError | Some n \<Rightarrow> Inr (int n))
          else (case parse_unsigned (c # cs) of
                  None \<Rightarrow> Inl ValueError | Some n \<Rightarrow> Inr (int n)))"

definition py_int :: "json \<Rightarrow> py_error + int" where
  "py_int v =
     (case v of
        JInt n \<Rightarrow> Inr n
      | JBool b \<Rightarrow> Inr (if b then 1 else 0)
      | JFloat f \<Rightarrow>
          (case f of
             Fin q \<Rightarrow> Inr (if 0 \<le> q then \<lfloor>q\<rfloor> else \<lceil>q\<rceil>)
           | NaN \<Rightarrow> Inl ValueError
           | _ \<Rightarrow> Inl OverflowError)
      | JStr s \<Rightarrow> int_of_str s
      | _ \<Rightarrow> Inl TypeError)"

type_synonym catalog = "(string \<times> int) list"

fun build_treatments :: "(string \<times> json) list \<Rightarrow> catalog \<Rightarrow> py_error + catalog" where
  \<comment> \<open>the comprehension \<open>{str(k): int(v) for k, v in data.items()}\<close>; the keys of an
      object read from JSON are strings\<close>
  "build_treatments [] acc = Inr acc"
| "build_treatments ((k, v) # rest) acc =
     (case py_int v of
        Inl e \<Rightarrow> Inl e
      | Inr n \<Rightarrow> build_treatments rest (dict_set k n acc))"

definition load_treatments :: "json_lib \<Rightarrow> files \<Rightarrow> catalog" where
  \<comment> \<open>every exception inside the \<open>try\<close> ends in \<open>return {}\<close>\<close>
  "load_treatments lib fs =
     (case treatments_file fs of
        None \<Rightarrow> []
      | Some text \<Rightarrow>
          (case json_load lib text of
             None \<Rightarrow> []
           | Some data \<Rightarrow>
               (case data of
                  JObj d \<Rightarrow> (case build_treatments d [] of Inl e \<Rightarrow> [] | Inr t \<Rightarrow> t)
                | _ \<Rightarrow> [])))"

definition int_values :: "(string \<times> json) list \<Rightarrow> catalog" where
  \<comment> \<open>the entries of a dict with \<open>int\<close> applied to each value, for values that \<open>int\<close>
      converts\<close>
  "int_values d = map (\<lambda>(k, v). (k, case py_int v of Inr n \<Rightarrow> n | Inl e \<Rightarrow> 0)) d"

definition catalog_json :: "catalog \<Rightarrow> json" where
  \<comment> \<open>the dict \<open>treatments_dict\<close> as \<open>json.dump\<close> receives it\<close>
  "catalog_json treatments_dict = JObj (map (\<lambda>(k, n). (k, JInt n)) treatments_dict)"

definition save_treatments :: "json_lib \<Rightarrow> files \<Rightarrow> catalog \<Rightarrow> dialog list \<times> files" where
  "save_treatments lib fs treatments_dict =
     (if writable fs
      then ([], fs\<lparr>treatments_file := Some (json_dump lib (catalog_json treatments_dict))\<rparr>)
      else ([ShowError ''Error'' ''Failed to save treatments''], fs))"

section \<open>Floating-point numbers\<close>

text \<open>
  A Python float is an IEEE double. Its finite values are modelled by the rational they
  denote (\<open>Fin\<close>); the result of an operation is the exact result rounded to the nearest
  double, ties to even (\<open>round_double\<close>), with the subnormal range below \<open>2^-1022\<close> and an
  infinity from \<open>2^1024\<close> on. The two zeros are one value here: the bill never prints a
  zero that was computed as negative.
\<close>

fun ilog2 :: "nat \<Rightarrow> nat" where
  \<comment> \<open>the position of the highest bit: \<open>2 ^ ilog2 n \<le> n < 2 ^ (ilog2 n + 1)\<close> for \<open>n > 0\<close>\<close>
  "ilog2 n = (if n < 2 then 0 else Suc (ilog2 (n div 2)))"

declare ilog2.simps [simp del]

definition pow2 :: "int \<Rightarrow> rat" where
  "pow2 k = (if 0 \<le> k then 2 ^ nat k else 1 / 2 ^ nat (- k))"

definition floor_log2 :: "rat \<Rightarrow> int" where
  \<comment> \<open>for \<open>a > 0\<close>: the \<open>e\<close> with \<open>2^e \<le> a < 2^(e+1)\<close>\<close>
  "floor_log2 a =
     (if 1 \<le> a then int (ilog2 (nat \<lfloor>a\<rfloor>))
      else (let j = int (ilog2 (nat \<lfloor>1 / a\<rfloor>))
            in if a = pow2 (- j) then - j else - j - 1))"

definition round_half_even :: "rat \<Rightarrow> int" where
  "round_half_even x =
     (let f = \<lfloor>x\<rfloor>; d = x - of_int f
      in if d < 1 / 2 then f else if 1 / 2 < d then f + 1 else if even f then f else f + 1)"

definition round_double :: "rat \<Rightarrow> pyfloat" where
  "round_double x =
     (if x = 0 then Fin 0
      else (let a = \<bar>x\<bar>;
                e = max (floor_log2 a) (- 1022);
                u = pow2 (e - 52);
                r = of_int (round_half_even (a / u)) * u
            in if pow2 1024 \<le> r then (if x < 0 then NInf else PInf)
               else Fin (if x < 0 then - r else r)))"

definition max_double :: rat where
  \<comment> \<open>the largest finite double\<close>
  "max_double = pow2 1024 - pow2 971"

definition float_of_int :: "int \<Rightarrow> py_error + rat" where
  \<comment> \<open>the conversion of an int operand to float; it raises for an int out of range\<close>
  "float_of_int n = (case round_double (of_int n) of Fin q \<Rightarrow> Inr q | _ \<Rightarrow> Inl OverflowError)"

definition int_truediv :: "int \<Rightarrow> int \<Rightarrow> py_error + rat" where
  \<comment> \<open>\<open>a / b\<close> on two ints, \<open>b\<close> not zero: the correctly rounded quotient\<close>
  "int_truediv a b =
     (case round_double (of_int a / of_int b) of Fin q \<Rightarrow> Inr q | _ \<Rightarrow> Inl OverflowError)"

definition fmul :: "rat \<Rightarrow> rat \<Rightarrow> pyfloat" where
  \<comment> \<open>the product of two finite floats\<close>
  "fmul a b = round_double (a * b)"

definition fsub :: "rat \<Rightarrow> pyfloat \<Rightarrow> pyfloat" where
  \<comment> \<open>a finite float minus a float\<close>
  "fsub a y = (case y of Fin b \<Rightarrow> round_double (a - b) | PInf \<Rightarrow> NInf | NInf \<Rightarrow> PInf | NaN \<Rightarrow> NaN)"

definition fneg :: "pyfloat \<Rightarrow> pyfloat" where
  "fneg y = (case y of Fin b \<Rightarrow> Fin (- b) | PInf \<Rightarrow> NInf | NInf \<Rightarrow> PInf | NaN \<Rightarrow> NaN)"

section \<open>Formatting\<close>

definition digit_char :: "nat \<Rightarrow> char" where
  "digit_char n = ''0123456789'' ! (n mod 10)"

fun str_nat :: "nat \<Rightarrow> string" where
  "str_nat n = (if n < 10 then [digit_char n] else str_nat (n div 10) @ [digit_char n])"

declare str_nat.simps [simp del]

definition str_int :: "int \<Rightarrow> string" where
  \<comment> \<open>\<open>str(n)\<close> for an int\<close>
  "str_int n = (if n < 0 then CHR ''-'' # str_nat (nat (- n)) else str_nat (nat n))"

definition ljust :: "nat \<Rightarrow> string \<Rightarrow> string" where
  \<comment> \<open>the format \<open><w\<close>\<close>
  "ljust w s = s @ replicate (w - length s) CHR '' ''"

definition rjust :: "nat \<Rightarrow> string \<Rightarrow> string" where
  \<comment> \<open>the format \<open>>w\<close>\<close>
  "rjust w s = replicate (w - length s) CHR '' '' @ s"

definition center :: "nat \<Rightarrow> string \<Rightarrow> string" where
  \<comment> \<open>the format \<open>^w\<close>: the smaller half of the padding goes to the left\<close>
  "center w s =
     (let pad = w - length s; left = pad div 2
      in replicate left CHR '' '' @ s @ replicate (pad - left) CHR '' '')"

definition format_2f :: "pyfloat \<Rightarrow> string" where
  \<comment> \<open>the format \<open>.2f\<close> of a float: the exact value rounded to two decimals, ties to even\<close>
  "format_2f y =
     (case y of
        Fin q \<Rightarrow>
          (let n = nat (round_half_even (\<bar>q\<bar> * 100))
           in (if q < 0 then ''-'' else [])
              @ str_nat (n div 100) @ ''.'' @ [digit_char (n div 10), digit_char n])
      | PInf \<Rightarrow> ''inf''
      | NInf \<Rightarrow> ''-inf''
      | NaN \<Rightarrow> ''nan'')"

datatype pynum = PyInt int | PyFloat pyfloat

definition num_format_2f :: "pynum \<Rightarrow> py_error + string" where
  \<comment> \<open>\<open>.2f\<close> on an int converts it to float first\<close>
  "num_format_2f v =
     (case v of
        PyInt n \<Rightarrow> (case float_of_int n of Inl e \<Rightarrow> Inl e | Inr q \<Rightarrow> Inr (format_2f (Fin q)))
      | PyFloat y \<Rightarrow> Inr (format_2f y))"

definition num_positive :: "pynum \<Rightarrow> bool" where
  \<comment> \<open>\<open>v > 0\<close>\<close>
  "num_positive v =
     (case v of
        PyInt n \<Rightarrow> 0 < n
      | PyFloat y \<Rightarrow> (case y of Fin q \<Rightarrow> 0 < q | PInf \<Rightarrow> True | _ \<Rightarrow> False))"

definition num_neg :: "pynum \<Rightarrow> pynum" where
  \<comment> \<open>\<open>-v\<close>\<close>
  "num_neg v = (case v of PyInt n \<Rightarrow> PyInt (- n) | PyFloat y \<Rightarrow> PyFloat (fneg y))"

section \<open>The patient and the bill\<close>

record patient =
  p_name :: string
  p_phone :: string
  treatments :: "(string \<times> int) list"
  prescription :: string
  patient_type :: string
  vip_discount :: int

definition rule_line :: "char \<Rightarrow> string" where
  \<comment> \<open>\<open>c * width\<close> with \<open>width = 60\<close>\<close>
  "rule_line c = replicate 60 c"

definition treatment_line :: "string \<times> int \<Rightarrow> string" where
  \<comment> \<open>\<open>f"{t.get_name():<35}{t.get_cost():>20}"\<close>\<close>
  "treatment_line t = ljust 35 (fst t) @ rjust 20 (str_int (snd t))"

fun treatment_loop :: "(string \<times> int) list \<Rightarrow> string list \<times> int \<Rightarrow> string list \<times> int" where
  \<comment> \<open>the loop over the treatments: one line each, and the running total\<close>
  "treatment_loop [] (lines, tot) = (lines, tot)"
| "treatment_loop (t # rest) (lines, tot) =
     treatment_loop rest (lines @ [treatment_line t], tot + snd t)"

definition bill_amounts :: "patient \<Rightarrow> int \<Rightarrow> py_error + pynum \<times> pynum" where
  \<comment> \<open>\<open>discount\<close> and \<open>total_after_discount\<close> for the total \<open>tot\<close> of the lines\<close>
  "bill_amounts p tot =
     (if patient_type p = ''VIP''
      then (case int_truediv (vip_discount p) 100 of
              Inl e \<Rightarrow> Inl e
            | Inr rate \<Rightarrow>
                (case float_of_int tot of
                   Inl e \<Rightarrow> Inl e
                 | Inr t \<Rightarrow> Inr (PyFloat (fmul t rate), PyFloat (fsub t (fmul t rate)))))
      else Inr (PyInt 0, PyInt tot))"

definition header_lines :: "string \<Rightarrow> patient \<Rightarrow> string list" where
  "header_lines now p =
     [rule_line CHR ''='',
      center 60 '' Reimagine Hair Transplant & Skin Care Clinic '',
      rule_line CHR ''='',
      ''Patient Name : '' @ p_name p,
      ''Phone Number : '' @ p_phone p,
      ''Patient Type : '' @ patient_type p,
      ''Date & Time  : '' @ now,
      rule_line CHR ''-'',
      ljust 35 ''Treatment'' @ rjust 20 ''Cost (Rs.)'',
      rule_line CHR ''-'']"

definition footer_lines :: "string list" where
  "footer_lines =
     [rule_line CHR ''='',
      center 60 ''Thank you for choosing our clinic!'',
      rule_line CHR ''='']"

definition get_bill_lines :: "string \<Rightarrow> patient \<Rightarrow> py_error + string list" where
  \<comment> \<open>the list \<open>lines\<close> of \<open>get_bill_text\<close>; \<open>now\<close> is the formatted time of the call\<close>
  "get_bill_lines now p =
     (let (lines, tot) = treatment_loop (treatments p) (header_lines now p, 0)
      in case bill_amounts p tot of
           Inl e \<Rightarrow> Inl e
         | Inr (discount, total_after_discount) \<Rightarrow>
             (case (if num_positive discount
                    then (case num_format_2f (PyInt tot) of
                            Inl e \<Rightarrow> Inl e
                          | Inr sub \<Rightarrow>
                              (case num_format_2f (num_neg discount) of
                                 Inl e \<Rightarrow> Inl e
                               | Inr disc \<Rightarrow>
                                   Inr [ljust 35 ''Subtotal'' @ rjust 20 sub,
                                        ljust 35 (''VIP Discount ('' @ str_int (vip_discount p) @ ''%)'')
                                          @ rjust 20 disc]))
                    else Inr []) of
                Inl e \<Rightarrow> Inl e
              | Inr discount_lines \<Rightarrow>
                  (case num_format_2f total_after_discount of
                     Inl e \<Rightarrow> Inl e
                   | Inr due \<Rightarrow>
                       Inr (lines @ [rule_line CHR ''-''] @ discount_lines
                            @ [ljust 35 ''Total Bill'' @ rjust 20 due] @ footer_lines))))"

fun join_lines :: "string list \<Rightarrow> string" where
  \<comment> \<open>\<open>"\n".join(lines)\<close>\<close>
  "join_lines [] = []"
| "join_lines [l] = l"
| "join_lines (l # ls) = l @ CHR 0x0A # join_lines ls"

definition get_bill_text :: "string \<Rightarrow> patient \<Rightarrow> py_error + string" where
  "get_bill_text now p =
     (case get_bill_lines now p of Inl e \<Rightarrow> Inl e | Inr lines \<Rightarrow> Inr (join_lines lines))"

definition get_prescription_text :: "string \<Rightarrow> patient \<Rightarrow> string" where
  "get_prescription_text now p =
     join_lines
       [rule_line CHR ''='',
        center 60 '' Prescription '',
        rule_line CHR ''='',
        ''Patient Name : '' @ p_name p,
        ''Phone Number : '' @ p_phone p,
        ''Date & Time  : '' @ now,
        rule_line CHR ''-'',
        (if prescription p \<noteq> [] then prescription p else ''No prescription provided.''),
        rule_line CHR ''='']"

section \<open>Amounts with two decimal places\<close>

definition is_int_text :: "string \<Rightarrow> bool" where
  \<comment> \<open>decimal digits, at least one, after an optional minus sign\<close>
  "is_int_text s =
     (case s of
        [] \<Rightarrow> False
      | c # cs \<Rightarrow> if c = CHR ''-'' then cs \<noteq> [] \<and> list_all is_digit cs
                  else list_all is_digit (c # cs))"

definition two_decimals :: "string \<Rightarrow> bool" where
  \<comment> \<open>an integer text, a point and exactly two digits\<close>
  "two_decimals s =
     (case rev s of
        d2 # d1 # dot # r \<Rightarrow> is_digit d2 \<and> is_digit d1 \<and> dot = CHR ''.'' \<and> is_int_text (rev r)
      | _ \<Rightarrow> False)"

definition num_finite :: "pynum \<Rightarrow> bool" where
  "num_finite v =
     (case v of PyInt n \<Rightarrow> True | PyFloat y \<Rightarrow> (case y of Fin q \<Rightarrow> True | _ \<Rightarrow> False))"

section \<open>Generating, printing and saving the bill\<close>

text \<open>
  The session holds \<open>self.patient\<close>, which is \<open>None\<close> at start and after a reset, and the
  text shown in the output box. What an action does to the outside is a list of effects.
  The environment gives the formatted times and tells whether a directory can be made, a
  file written and the print command started.
\<close>

record session =
  patient :: "patient option"
  text_output :: string

datatype effect =
    Dialog dialog
  | AskYesNo string string
  | TempFile string
  | PrintJob
  | RemoveLater
  | MakeDir string
  | WriteFile string string

record env =
  now_text :: string
  file_stamp :: string
  date_folder :: string
  time_stamp :: string
  can_mkdir :: bool
  can_write :: bool
  can_print :: bool

text \<open>
  The form is what the widgets hold when Generate is clicked. The value of an \<open>IntVar\<close> is
  what its \<open>get\<close> returns: an int, or \<open>None\<close> where \<open>get\<close> raises \<open>TclError\<close>, as it
  does for a box that was emptied or holds text that is not a number. \<open>confirm_phone\<close> is
  the answer to the question about an unusual phone number.
\<close>

record form =
  entry_name :: string
  entry_phone :: string
  patient_type_var :: string
  vip_discount_var :: "int option"
  selected_treatments :: "string list"
  treatment_price_vars :: "(string \<times> int option) list"
  text_prescription :: string
  confirm_phone :: bool

definition init_session :: session where
  "init_session = \<lparr>patient = None, text_output = []\<rparr>"

definition reset_all :: "session \<Rightarrow> session" where
  "reset_all s = s\<lparr>patient := None, text_output := []\<rparr>"

definition phone_char :: "char \<Rightarrow> bool" where
  \<comment> \<open>the class \<^verbatim>\<open>[\d\s\-+()]\<close>\<close>
  "phone_char c = (is_digit c \<or> is_space c \<or> c \<in> set ''-+()'')"

definition phone_usual :: "string \<Rightarrow> bool" where
  \<comment> \<open>\<^verbatim>\<open>re.match(r"^[+\d][\d\s\-+()]{5,}$", phone)\<close>\<close>
  "phone_usual phone =
     (case phone of
        [] \<Rightarrow> False
      | c # cs \<Rightarrow> (c = CHR ''+'' \<or> is_digit c) \<and> 5 \<le> length cs \<and> list_all phone_char cs)"

definition is_alnum :: "char \<Rightarrow> bool" where
  \<comment> \<open>\<open>str.isalnum\<close> on one code point below 256\<close>
  "is_alnum c =
     (let n = (of_char c :: nat)
      in (48 \<le> n \<and> n \<le> 57) \<or> (65 \<le> n \<and> n \<le> 90) \<or> (97 \<le> n \<and> n \<le> 122)
         \<or> n \<in> {170, 178, 179, 181, 185, 186, 188, 189, 190}
         \<or> (192 \<le> n \<and> n \<le> 214) \<or> (216 \<le> n \<and> n \<le> 246) \<or> 248 \<le> n)"

definition safe_name :: "string \<Rightarrow> string" where
  \<comment> \<open>\<open>"".join(c for c in name if c.isalnum() or c in (' ', '_')).rstrip()\<close>\<close>
  "safe_name name =
     rev (dropWhile is_space (rev (filter (\<lambda>c. is_alnum c \<or> c = CHR '' '' \<or> c = CHR ''_'') name)))"

fun add_treatments ::
  "(string \<times> int option) list \<Rightarrow> string list \<Rightarrow> patient \<Rightarrow> patient \<times> py_error option" where
  \<comment> \<open>the loop over \<open>selected_treatments\<close>: the patient as the loop leaves it, and the
      exception that ended the loop, if any\<close>
  "add_treatments price_vars [] p = (p, None)"
| "add_treatments price_vars (t_name # rest) p =
     (case map_of price_vars t_name of
        None \<Rightarrow> (p, Some KeyError)
      | Some None \<Rightarrow> (p, Some TclError)
      | Some (Some cost) \<Rightarrow>
          add_treatments price_vars rest (p\<lparr>treatments := treatments p @ [(t_name, cost)]\<rparr>))"

definition render_and_record ::
  "env \<Rightarrow> form \<Rightarrow> effect list \<Rightarrow> session \<Rightarrow> patient \<Rightarrow> (py_error + effect list) \<times> session" where
  \<comment> \<open>after the loop: the prescription is set on \<open>self.patient\<close>, the two texts are
      rendered and shown, and a copy is written under \<open>records\<close>; a failure to write
      that copy is ignored\<close>
  "render_and_record ev f asked s p =
     (let p' = p\<lparr>prescription := strip (text_prescription f)\<rparr>
      in case get_bill_text (now_text ev) p' of
           Inl e \<Rightarrow> (Inl e, s\<lparr>patient := Some p'\<rparr>)
         | Inr bill_text \<Rightarrow>
             (let shown = bill_text @ [CHR 0x0A, CHR 0x0A] @ get_prescription_text (now_text ev) p';
                  s' = s\<lparr>patient := Some p', text_output := shown\<rparr>;
                  folder_path = ''records/'' @ date_folder ev;
                  filepath = folder_path @ ''/'' @ safe_name (strip (entry_name f)) @ ''_''
                               @ time_stamp ev @ ''.txt''
              in if can_mkdir ev
                 then (Inr (asked @ MakeDir folder_path
                              # (if can_write ev then [WriteFile filepath shown] else [])), s')
                 else (Inl OSError, s')))"

definition generate_bill_prescription ::
  "env \<Rightarrow> form \<Rightarrow> session \<Rightarrow> (py_error + effect list) \<times> session" where
  \<comment> \<open>\<open>self.patient\<close> is assigned before the prices are read\<close>
  "generate_bill_prescription ev f s =
     (let name = strip (entry_name f); phone = strip (entry_phone f);
          asked = (if phone_usual phone then []
                   else [AskYesNo ''Phone format'' ''Phone number looks unusual. Continue anyway?''])
      in case vip_discount_var f of
           None \<Rightarrow> (Inl TclError, s)
         | Some discount \<Rightarrow>
             if name = [] \<or> phone = []
             then (Inr [Dialog (ShowError ''Input Error''
                          ''Please enter patient name and phone number.'')], s)
             else if \<not> phone_usual phone \<and> \<not> confirm_phone f then (Inr asked, s)
             else if selected_treatments f = []
             then (Inr (asked @ [Dialog (ShowError ''Input Error''
                          ''Please select at least one treatment.'')]), s)
             else if patient_type_var f = ''VIP'' \<and> \<not> (0 \<le> discount \<and> discount \<le> 100)
             then (Inr (asked @ [Dialog (ShowError ''Input Error''
                          ''VIP discount must be between 0 and 100.'')]), s)
             else (case add_treatments (treatment_price_vars f) (selected_treatments f)
                          \<lparr>p_name = name, p_phone = phone, treatments = [], prescription = [],
                           patient_type = patient_type_var f,
                           vip_discount = (if patient_type_var f \<noteq> ''VIP'' then 0 else discount)\<rparr> of
                     (p, Some e) \<Rightarrow> (Inl e, s\<lparr>patient := Some p\<rparr>)
                   | (p, None) \<Rightarrow> render_and_record ev f asked s p))"

definition print_text :: "env \<Rightarrow> string \<Rightarrow> effect list" where
  "print_text ev text_content =
     TempFile text_content
     # (if can_print ev then [PrintJob, Dialog (ShowInfo ''Success'' ''Document sent to printer'')]
        else [Dialog (ShowError ''Print Error'' ''Could not print'')])
     @ [RemoveLater]"

definition combined_text :: "env \<Rightarrow> patient \<Rightarrow> py_error + string" where
  \<comment> \<open>\<open>get_bill_text() + "\n\n" + get_prescription_text()\<close>\<close>
  "combined_text ev p =
     (case get_bill_text (now_text ev) p of
        Inl e \<Rightarrow> Inl e
      | Inr bill \<Rightarrow> Inr (bill @ [CHR 0x0A, CHR 0x0A] @ get_prescription_text (now_text ev) p))"

definition print_bill_and_prescription :: "env \<Rightarrow> session \<Rightarrow> py_error + effect list" where
  "print_bill_and_prescription ev s =
     (case patient s of
        None \<Rightarrow> Inr [Dialog (ShowError ''Error''
                    ''Generate bill and prescription first before printing.'')]
      | Some p \<Rightarrow>
          (case combined_text ev p of
             Inl e \<Rightarrow> Inl e
           | Inr text_content \<Rightarrow> Inr (print_text ev text_content)))"

definition save_to_txt :: "env \<Rightarrow> session \<Rightarrow> py_error + effect list" where
  "save_to_txt ev s =
     (case patient s of
        None \<Rightarrow> Inr [Dialog (ShowError ''Error''
                    ''Generate bill and prescription first before saving.'')]
      | Some p \<Rightarrow>
          (case combined_text ev p of
             Inl e \<Rightarrow> Inl e
           | Inr text_content \<Rightarrow>
               if \<not> can_mkdir ev then Inl OSError
               else (let filename = ''txt/bill_prescription_'' @ file_stamp ev @ ''.txt''
                     in Inr (MakeDir ''txt''
                             # (if can_write ev
                                then [WriteFile filename text_content,
                                      Dialog (ShowInfo ''Success''
                                        (''Bill and prescription saved to:'' @ CHR 0x0A # filename))]
                                else [Dialog (ShowError ''Save Error'' ''Could not save file'')])))))"

section \<open>The reminder at start\<close>

definition pad2 :: "nat \<Rightarrow> string" where
  "pad2 n = [digit_char (n div 10), digit_char n]"

definition strftime_ymd :: "date \<Rightarrow> string" where
  \<comment> \<open>\<open>d.strftime("%Y-%m-%d")\<close>, for the years from 1000 on\<close>
  "strftime_ymd d = (case d of (y, m, dd) \<Rightarrow> str_nat y @ ''-'' @ pad2 m @ ''-'' @ pad2 dd)"

definition date_is :: "string \<Rightarrow> json \<Rightarrow> py_error + bool" where
  \<comment> \<open>\<open>appt.get("date") == s\<close>\<close>
  "date_is s appt =
     (case appt of JObj d \<Rightarrow> Inr (dict_get d ''date'' = Some (JStr s)) | _ \<Rightarrow> Inl AttributeError)"

fun filter_due :: "string \<Rightarrow> json list \<Rightarrow> py_error + json list" where
  "filter_due s [] = Inr []"
| "filter_due s (appt # rest) =
     (case date_is s appt of
        Inl e \<Rightarrow> Inl e
      | Inr due \<Rightarrow>
          (case filter_due s rest of
             Inl e \<Rightarrow> Inl e
           | Inr others \<Rightarrow> Inr (if due then appt # others else others)))"

definition due_appointments :: "json_lib \<Rightarrow> date \<Rightarrow> files \<Rightarrow> py_error + json list" where
  \<comment> \<open>the list \<open>due_appointments\<close> of \<open>check_appointments_reminder\<close>; \<open>tomorrow\<close> is the day
      after the current date\<close>
  "due_appointments lib tomorrow fs =
     (case iter_json (load_appointments lib fs) of
        Inl e \<Rightarrow> Inl e
      | Inr appointments \<Rightarrow> filter_due (strftime_ymd tomorrow) appointments)"

section \<open>The JSON library\<close>

text \<open>
  \<open>json.dump(value, f, indent=4)\<close> and \<open>json.load(f)\<close> as the program calls them, with the
  defaults of the library: non-ASCII characters are escaped, an indentation step is four
  blanks, the separators are a comma and a colon followed by a blank. Strings are the
  strings of this theory, with code points below 256. The recursion limit of the
  interpreter is not modelled.
\<close>

subsection \<open>Writing\<close>

definition hex_digit :: "nat \<Rightarrow> char" where
  "hex_digit n = ''0123456789abcdef'' ! (n mod 16)"

definition escape_char :: "char \<Rightarrow> string" where
  \<comment> \<open>a character inside a string: the printable ASCII characters stand for themselves,
      except the quote and the backslash\<close>
  "escape_char c =
     (let n = (of_char c :: nat)
      in if c = CHR 0x22 then [CHR 0x5C, CHR 0x22]
         else if c = CHR 0x5C then [CHR 0x5C, CHR 0x5C]
         else if c = CHR 0x0A then [CHR 0x5C, CHR ''n'']
         else if c = CHR 0x0D then [CHR 0x5C, CHR ''r'']
         else if c = CHR 0x09 then [CHR 0x5C, CHR ''t'']
         else if c = CHR 0x08 then [CHR 0x5C, CHR ''b'']
         else if c = CHR 0x0C then [CHR 0x5C, CHR ''f'']
         else if 32 \<le> n \<and> n \<le> 126 then [c]
         else [CHR 0x5C, CHR ''u'', CHR ''0'', CHR ''0'', hex_digit (n div 16), hex_digit n])"

definition encode_string :: "string \<Rightarrow> string" where
  "encode_string s = CHR 0x22 # concat (map escape_char s) @ [CHR 0x22]"

text \<open>
  A float is written by \<open>float.__repr__\<close>: the shortest decimal that \<open>float\<close> reads back
  as the same double and, among these, the one nearest to it, in positional notation
  when the decimal point lies within the range from \<open>-3\<close> to \<open>16\<close> and in exponent
  notation otherwise.
\<close>

fun ilog10 :: "nat \<Rightarrow> nat" where
  "ilog10 n = (if n < 10 then 0 else Suc (ilog10 (n div 10)))"

declare ilog10.simps [simp del]

definition pow10 :: "int \<Rightarrow> rat" where
  "pow10 k = (if 0 \<le> k then 10 ^ nat k else 1 / 10 ^ nat (- k))"

definition floor_log10 :: "rat \<Rightarrow> int" where
  \<comment> \<open>for \<open>a > 0\<close>: the \<open>e\<close> with \<open>10^e \<le> a < 10^(e+1)\<close>\<close>
  "floor_log10 a =
     (if 1 \<le> a then int (ilog10 (nat \<lfloor>a\<rfloor>))
      else (let j = int (ilog10 (nat \<lfloor>1 / a\<rfloor>))
            in if a = pow10 (- j) then - j else - j - 1))"

definition reads_back :: "rat \<Rightarrow> int \<Rightarrow> int \<Rightarrow> bool" where
  "reads_back a m k = (round_double (of_int m * pow10 k) = Fin a)"

definition digits_at :: "rat \<Rightarrow> nat \<Rightarrow> (int \<times> int) option" where
  \<comment> \<open>among the decimals \<open>m * 10^k\<close> of \<open>n\<close> significant digits that read back as \<open>a\<close>, the
      nearest to \<open>a\<close>\<close>
  "digits_at a n =
     (let k = floor_log10 a - int n + 1;
          x = a / pow10 k;
          lo = \<lfloor>x\<rfloor>;
          hi = lo + 1
      in if reads_back a lo k \<and> reads_back a hi k
         then (if x - of_int lo < of_int hi - x then Some (lo, k)
               else if of_int hi - x < x - of_int lo then Some (hi, k)
               else if even lo then Some (lo, k) else Some (hi, k))
         else if reads_back a lo k then Some (lo, k)
         else if reads_back a hi k then Some (hi, k)
         else None)"

definition shortest_digits :: "rat \<Rightarrow> int \<times> int" where
  \<comment> \<open>seventeen significant digits determine a double\<close>
  "shortest_digits a =
     (case List.map_filter (digits_at a) [1 ..< 18] of
        r # rs \<Rightarrow> r
      | [] \<Rightarrow> (let k = floor_log10 a - 16 in (round_half_even (a / pow10 k), k)))"

function strip_zeros :: "nat \<Rightarrow> int \<Rightarrow> nat \<times> int" where
  "strip_zeros m k = (if m \<noteq> 0 \<and> m mod 10 = 0 then strip_zeros (m div 10) (k + 1) else (m, k))"
  by pat_completeness auto

termination
  by (relation "measure fst") auto

declare strip_zeros.simps [simp del]

definition exponent_text :: "int \<Rightarrow> string" where
  \<comment> \<open>a sign and at least two digits\<close>
  "exponent_text e =
     (if e < 0 then ''-'' else ''+'')
     @ (if \<bar>e\<bar> < 10 then ''0'' else []) @ str_nat (nat \<bar>e\<bar>)"

definition float_repr_pos :: "rat \<Rightarrow> string" where
  "float_repr_pos a =
     (let (m, k) = shortest_digits a;
          (m', k') = strip_zeros (nat m) k;
          ds = str_nat m';
          n = length ds;
          decpt = k' + int n
      in if decpt \<le> - 4 \<or> 16 < decpt
         then hd ds # (if n = 1 then [] else CHR ''.'' # tl ds) @ ''e'' @ exponent_text (decpt - 1)
         else if decpt \<le> 0 then ''0.'' @ replicate (nat (- decpt)) CHR ''0'' @ ds
         else if int n \<le> decpt then ds @ replicate (nat (decpt - int n)) CHR ''0'' @ ''.0''
         else take (nat decpt) ds @ ''.'' @ drop (nat decpt) ds)"

definition float_repr :: "pyfloat \<Rightarrow> string" where
  "float_repr f =
     (case f of
        Fin q \<Rightarrow> if q = 0 then ''0.0''
                 else if q < 0 then CHR ''-'' # float_repr_pos (- q) else float_repr_pos q
      | PInf \<Rightarrow> ''Infinity''
      | NInf \<Rightarrow> ''-Infinity''
      | NaN \<Rightarrow> ''NaN'')"

definition newline_indent :: "nat \<Rightarrow> string" where
  "newline_indent level = CHR 0x0A # replicate (4 * level) CHR '' ''"

fun join_items :: "string \<Rightarrow> string list \<Rightarrow> string" where
  "join_items sep [] = []"
| "join_items sep [x] = x"
| "join_items sep (x # y # rest) = x @ sep @ join_items sep (y # rest)"

fun json_text :: "nat \<Rightarrow> json \<Rightarrow> string" where
  \<comment> \<open>the text of a value at a nesting level\<close>
  "json_text level JNull = ''null''"
| "json_text level (JBool b) = (if b then ''true'' else ''false'')"
| "json_text level (JInt n) = str_int n"
| "json_text level (JFloat f) = float_repr f"
| "json_text level (JStr s) = encode_string s"
| "json_text level (JArr xs) =
     (if xs = [] then ''[]''
      else ''['' @ newline_indent (Suc level)
           @ join_items (CHR '','' # newline_indent (Suc level)) (map (json_text (Suc level)) xs)
           @ newline_indent level @ '']'')"
| "json_text level (JObj d) =
     (if d = [] then ''{}''
      else ''{'' @ newline_indent (Suc level)
           @ join_items (CHR '','' # newline_indent (Suc level))
               (map (\<lambda>p. encode_string (fst p) @ '': '' @ json_text (Suc level) (snd p)) d)
           @ newline_indent level @ ''}'')"

text \<open>
  \<open>int.__repr__\<close> raises \<open>ValueError\<close> for an int of more than 4300 digits, and \<open>json.dump\<close>
  with it. The file then holds the pieces that were written before: \<open>json.dump\<close> writes an
  object piece by piece (the brace, the indentation, a key, the colon, a value), and it
  writes an element of a list together with the bracket or the comma before it, unless the
  element is itself a list or an object.
\<close>

definition int_fits :: "int \<Rightarrow> bool" where
  "int_fits n = (length (str_nat (nat \<bar>n\<bar>)) \<le> 4300)"

fun dump_raises :: "json \<Rightarrow> bool" where
  "dump_raises (JInt n) = (\<not> int_fits n)"
| "dump_raises (JArr xs) = list_ex dump_raises xs"
| "dump_raises (JObj d) = list_ex (\<lambda>p. dump_raises (snd p)) d"
| "dump_raises v = False"

definition is_container :: "json \<Rightarrow> bool" where
  "is_container v = (case v of JArr xs \<Rightarrow> True | JObj d \<Rightarrow> True | _ \<Rightarrow> False)"

fun written :: "nat \<Rightarrow> json \<Rightarrow> string"
  and written_elements :: "nat \<Rightarrow> string \<Rightarrow> json list \<Rightarrow> string"
  and written_members :: "nat \<Rightarrow> string \<Rightarrow> (string \<times> json) list \<Rightarrow> string" where
  \<comment> \<open>what is written of a value on which \<open>json.dump\<close> raises\<close>
  "written level (JArr xs) = written_elements (Suc level) (''['' @ newline_indent (Suc level)) xs"
| "written level (JObj d) = ''{'' @ newline_indent (Suc level) @ written_members (Suc level) [] d"
| "written level v = []"
| "written_elements level buf [] = []"
| "written_elements level buf (x # rest) =
     (if dump_raises x then (if is_container x then buf @ written level x else [])
      else buf @ json_text level x
           @ written_elements level (CHR '','' # newline_indent level) rest)"
| "written_members level buf [] = []"
| "written_members level buf (p # rest) =
     buf @ encode_string (fst p) @ '': ''
     @ (if dump_raises (snd p) then written level (snd p)
        else json_text level (snd p)
             @ written_members level (CHR '','' # newline_indent level) rest)"

definition json_dumps :: "json \<Rightarrow> string" where
  \<comment> \<open>the text that \<open>json.dump(v, f, indent=4)\<close> leaves in the file\<close>
  "json_dumps v = (if dump_raises v then written 0 v else json_text 0 v)"

subsection \<open>Reading\<close>

text \<open>
  \<open>json.load\<close> reads one value, with blanks, tabs, line feeds and carriage returns
  allowed around it and between the tokens, and raises on anything else; \<open>None\<close> stands
  for the exception. An escape \<open>\uXXXX\<close> is read for the code points below 256.
\<close>

definition json_space :: "char \<Rightarrow> bool" where
  "json_space c = (c = CHR '' '' \<or> c = CHR 0x09 \<or> c = CHR 0x0A \<or> c = CHR 0x0D)"

definition skip_space :: "string \<Rightarrow> string" where
  "skip_space s = dropWhile json_space s"

definition hex_val :: "char \<Rightarrow> nat option" where
  "hex_val c =
     (let n = (of_char c :: nat)
      in if 48 \<le> n \<and> n \<le> 57 then Some (n - 48)
         else if 97 \<le> n \<and> n \<le> 102 then Some (n - 87)
         else if 65 \<le> n \<and> n \<le> 70 then Some (n - 55)
         else None)"

definition hex4 :: "char \<Rightarrow> char \<Rightarrow> char \<Rightarrow> char \<Rightarrow> nat option" where
  "hex4 a b c d =
     (case (hex_val a, hex_val b, hex_val c, hex_val d) of
        (Some w, Some x, Some y, Some z) \<Rightarrow> Some (4096 * w + 256 * x + 16 * y + z)
      | _ \<Rightarrow> None)"

definition unescape :: "char \<Rightarrow> char option" where
  \<comment> \<open>the character after a backslash, other than \<open>u\<close>\<close>
  "unescape e =
     (if e = CHR 0x22 \<or> e = CHR 0x5C \<or> e = CHR ''/'' then Some e
      else if e = CHR ''b'' then Some (CHR 0x08)
      else if e = CHR ''f'' then Some (CHR 0x0C)
      else if e = CHR ''n'' then Some (CHR 0x0A)
      else if e = CHR ''r'' then Some (CHR 0x0D)
      else if e = CHR ''t'' then Some (CHR 0x09)
      else None)"

fun scanstring :: "string \<Rightarrow> (string \<times> string) option" where
  \<comment> \<open>from the character after the opening quote: the string and the text after the
      closing quote; a control character must be escaped\<close>
  "scanstring [] = None"
| "scanstring (c # r) =
     (if c = CHR 0x22 then Some ([], r)
      else if c = CHR 0x5C
      then (case r of
              [] \<Rightarrow> None
            | e # r1 \<Rightarrow>
                if e = CHR ''u''
                then (case r1 of
                        h1 # h2 # h3 # h4 # r2 \<Rightarrow>
                          (case hex4 h1 h2 h3 h4 of
                             None \<Rightarrow> None
                           | Some n \<Rightarrow>
                               if n < 256
                               then map_option (\<lambda>(s, t). (char_of n # s, t)) (scanstring r2)
                               else None)
                      | _ \<Rightarrow> None)
                else (case unescape e of
                        None \<Rightarrow> None
                      | Some x \<Rightarrow> map_option (\<lambda>(s, t). (x # s, t)) (scanstring r1)))
      else if (of_char c :: nat) < 32 then None
      else map_option (\<lambda>(s, t). (c # s, t)) (scanstring r))"

definition digits_value :: "string \<Rightarrow> nat" where
  "digits_value ds = foldl (\<lambda>acc c. 10 * acc + digit_val c) 0 ds"

definition span_digits :: "string \<Rightarrow> string \<times> string" where
  "span_digits s = (takeWhile is_digit s, dropWhile is_digit s)"

definition scan_integer :: "string \<Rightarrow> (string \<times> string) option" where
  \<comment> \<open>a zero, or digits that do not start with a zero\<close>
  "scan_integer s =
     (case s of
        [] \<Rightarrow> None
      | c # r \<Rightarrow>
          if c = CHR ''0'' then Some ([c], r)
          else if is_digit c then Some (c # takeWhile is_digit r, dropWhile is_digit r)
          else None)"

definition scan_fraction :: "string \<Rightarrow> string \<times> string" where
  \<comment> \<open>a point and digits, if the point is followed by a digit\<close>
  "scan_fraction s =
     (case s of
        p # d # r \<Rightarrow>
          if p = CHR ''.'' \<and> is_digit d then (takeWhile is_digit (d # r), dropWhile is_digit (d # r))
          else ([], s)
      | _ \<Rightarrow> ([], s))"

definition scan_exponent :: "string \<Rightarrow> (int option) \<times> string" where
  \<comment> \<open>\<open>e\<close> or \<open>E\<close>, an optional sign and digits; without digits it is not an exponent\<close>
  "scan_exponent s =
     (case s of
        [] \<Rightarrow> (None, s)
      | e # r \<Rightarrow>
          if e = CHR ''e'' \<or> e = CHR ''E''
          then (let negative = (case r of c # t \<Rightarrow> c = CHR ''-'' | [] \<Rightarrow> False);
                    r1 = (case r of c # t \<Rightarrow> if c = CHR ''-'' \<or> c = CHR ''+'' then t else r
                                  | [] \<Rightarrow> r);
                    ds = takeWhile is_digit r1
                in if ds = [] then (None, s)
                   else (Some (if negative then - int (digits_value ds) else int (digits_value ds)),
                         dropWhile is_digit r1))
          else (None, s))"

definition scan_number :: "string \<Rightarrow> (json \<times> string) option" where
  \<comment> \<open>an int when there is neither fraction nor exponent, and a float otherwise: the
      double nearest to the decimal. An int of more than 4300 digits raises\<close>
  "scan_number s =
     (let negative = (case s of c # r \<Rightarrow> c = CHR ''-'' | [] \<Rightarrow> False);
          s1 = (if negative then tl s else s)
      in case scan_integer s1 of
           None \<Rightarrow> None
         | Some (ds, s2) \<Rightarrow>
             (let (fs, s3) = scan_fraction s2;
                  (ex, s4) = scan_exponent s3
              in if fs = [] \<and> ex = None
                 then (if 4300 < length ds then None
                       else Some (JInt (if negative then - int (digits_value ds)
                                        else int (digits_value ds)), s4))
                 else (let q = of_nat (digits_value (ds @ fs))
                               * pow10 ((case ex of None \<Rightarrow> 0 | Some e \<Rightarrow> e) - int (length fs))
                       in Some (JFloat (round_double (if negative then - q else q)), s4))))"

fun scan_once :: "nat \<Rightarrow> string \<Rightarrow> (json \<times> string) option"
  and parse_array :: "nat \<Rightarrow> json list \<Rightarrow> string \<Rightarrow> (json \<times> string) option"
  and parse_object :: "nat \<Rightarrow> (string \<times> json) list \<Rightarrow> string \<Rightarrow> (json \<times> string) option" where
  \<comment> \<open>one value at the start of the text, and the text after it; the first argument
      bounds the number of nested calls. \<open>parse_array\<close> and \<open>parse_object\<close> start at an
      element and at a key, with the elements and the members read so far; a key that
      comes again replaces the value of the first\<close>
  "scan_once 0 s = None"
| "scan_once (Suc n) s =
     (case s of
        [] \<Rightarrow> None
      | c # r \<Rightarrow>
          if c = CHR 0x22 then map_option (\<lambda>(x, t). (JStr x, t)) (scanstring r)
          else if c = CHR ''{''
          then (case skip_space r of
                  [] \<Rightarrow> None
                | c1 # r1 \<Rightarrow> if c1 = CHR ''}'' then Some (JObj [], r1)
                             else parse_object n [] (c1 # r1))
          else if c = CHR ''[''
          then (case skip_space r of
                  [] \<Rightarrow> None
                | c1 # r1 \<Rightarrow> if c1 = CHR '']'' then Some (JArr [], r1)
                             else parse_array n [] (c1 # r1))
          else if starts_with s ''null'' then Some (JNull, drop 4 s)
          else if starts_with s ''true'' then Some (JBool True, drop 4 s)
          else if starts_with s ''false'' then Some (JBool False, drop 5 s)
          else if starts_with s ''NaN'' then Some (JFloat NaN, drop 3 s)
          else if starts_with s ''Infinity'' then Some (JFloat PInf, drop 8 s)
          else if starts_with s ''-Infinity'' then Some (JFloat NInf, drop 9 s)
          else scan_number s)"
| "parse_array 0 acc s = None"
| "parse_array (Suc n) acc s =
     (case scan_once n s of
        None \<Rightarrow> None
      | Some (v, r) \<Rightarrow>
          (case skip_space r of
             [] \<Rightarrow> None
           | c # r1 \<Rightarrow>
               if c = CHR '']'' then Some (JArr (acc @ [v]), r1)
               else if c = CHR '','' then parse_array n (acc @ [v]) (skip_space r1)
               else None))"
| "parse_object 0 acc s = None"
| "parse_object (Suc n) acc s =
     (case s of
        [] \<Rightarrow> None
      | q # r \<Rightarrow>
          if q = CHR 0x22
          then (case scanstring r of
                  None \<Rightarrow> None
                | Some (key, r1) \<Rightarrow>
                    (case skip_space r1 of
                       [] \<Rightarrow> None
                     | c # r2 \<Rightarrow>
                         if c = CHR '':''
                         then (case scan_once n (skip_space r2) of
                                 None \<Rightarrow> None
                               | Some (v, r3) \<Rightarrow>
                                   (case skip_space r3 of
                                      [] \<Rightarrow> None
                                    | c1 # r4 \<Rightarrow>
                                        if c1 = CHR ''}'' then Some (JObj (dict_set key v acc), r4)
                                        else if c1 = CHR '',''
                                        then parse_object n (dict_set key v acc) (skip_space r4)
                                        else None))
                         else None))
          else None)"

definition json_loads :: "string \<Rightarrow> json option" where
  \<comment> \<open>a call reads at least one character, so the length of the text bounds the calls\<close>
  "json_loads s =
     (case scan_once (Suc (length s)) (skip_space s) of
        None \<Rightarrow> None
      | Some (v, r) \<Rightarrow> if skip_space r = [] then Some v else None)"

definition py_json :: json_lib where
  "py_json = \<lparr>json_dump = json_dumps, json_load = json_loads\<rparr>"

section \<open>Arithmetic on numerals\<close>

lemma floor_numeral_div: "\<lfloor>(numeral a :: rat) / numeral b\<rfloor> = numeral a div numeral b"
  using floor_divide_of_int_eq [of "numeral a" "numeral b", where ?'a = rat] by simp

section \<open>Properties of booking and editing\<close>

lemma replace_first_None: "replace_first d new xs = None \<longleftrightarrow> (\<forall>x\<in>set xs. \<not> same_name d x)"
  by (induction xs) auto

lemma replace_first_at:
  "i < length xs \<Longrightarrow> same_name d (xs ! i) \<Longrightarrow> \<forall>j<i. \<not> same_name d (xs ! j)
     \<Longrightarrow> replace_first d new xs = Some (xs[i := new])"
proof (induction xs arbitrary: i)
  case Nil
  then show ?case by simp
next
  case (Cons a xs)
  show ?case
  proof (cases i)
    case 0
    with Cons.prems show ?thesis by simp
  next
    case (Suc k)
    with Cons.prems have "\<not> same_name d a" by auto
    moreover from Suc Cons.prems have "k < length xs" "same_name d (xs ! k)" by auto
    moreover from Suc Cons.prems have "\<forall>j<k. \<not> same_name d (xs ! j)" by auto
    ultimately show ?thesis using Cons.IH [of k] Suc by simp
  qed
qed

lemma replace_first_Some:
  "replace_first d new xs = Some ys \<Longrightarrow> new \<in> set ys \<and> length ys = length xs"
  by (induction xs arbitrary: ys) (auto split: if_splits)

lemma same_name_name_is:
  "dict_get d ''name'' = Some (JStr n) \<Longrightarrow> same_name d a = name_is n a"
  by (auto simp: same_name_def name_is_def get_value_def split: json.splits option.splits)

lemma dict_get_dict_set:
  "dict_get (dict_set k v d) k' = (if k' = k then Some v else dict_get d k')"
  by (induction d) (auto simp: dict_get_def)

lemma edit_date_fields:
  "edit_date today d0 nd = Inr d1 \<Longrightarrow> dict_get d0 ''date'' = Some dt
     \<Longrightarrow> dict_get d1 ''date'' = Some (merged dt nd)
         \<and> dict_get d1 ''name'' = dict_get d0 ''name''
         \<and> dict_get d1 ''phone'' = dict_get d0 ''phone''"
  by (auto simp: edit_date_def merged_def dict_get_dict_set split: option.splits if_splits)

lemma edit_phone_fields:
  "dict_get d1 ''phone'' = Some p
     \<Longrightarrow> dict_get (edit_phone d1 np) ''phone'' = Some (merged p np)
         \<and> dict_get (edit_phone d1 np) ''name'' = dict_get d1 ''name''
         \<and> dict_get (edit_phone d1 np) ''date'' = dict_get d1 ''date''"
  by (auto simp: edit_phone_def merged_def dict_get_dict_set split: option.splits)

text \<open>
  The edit of a selected record that has its three fields, with a date that passes the
  validation: the dict after the two dialogs, and the record built from it.
\<close>

lemma edit_prepare_selected:
  assumes "filter_matches (lower (strip search_var)) upcoming = Inr current_list"
    and "index < length current_list"
    and "current_list ! index = JObj appt_to_edit"
    and "dict_get appt_to_edit ''name'' = Some (JStr n)"
    and "dict_get appt_to_edit ''phone'' = Some p"
    and "dict_get appt_to_edit ''date'' = Some d"
    and "edit_date today appt_to_edit new_date_str = Inr dated"
  shows "edit_prepare today upcoming search_var (Some index) new_date_str new_phone
           = Continues (edit_phone dated new_phone)"
    and "dict_get (edit_phone dated new_phone) ''name'' = Some (JStr n)"
    and "new_record (edit_phone dated new_phone)
           = Inr (JObj [(''name'', JStr n), (''phone'', merged p new_phone),
                        (''date'', merged d new_date_str)])"
proof -
  from edit_date_fields [OF assms(7,6)] assms(4,5)
  have 1: "dict_get dated ''date'' = Some (merged d new_date_str)"
    "dict_get dated ''name'' = Some (JStr n)" "dict_get dated ''phone'' = Some p"
    by simp_all
  from edit_phone_fields [OF 1(3), of new_phone] 1
  have 2: "dict_get (edit_phone dated new_phone) ''phone'' = Some (merged p new_phone)"
    "dict_get (edit_phone dated new_phone) ''name'' = Some (JStr n)"
    "dict_get (edit_phone dated new_phone) ''date'' = Some (merged d new_date_str)"
    by simp_all
  show "edit_prepare today upcoming search_var (Some index) new_date_str new_phone
           = Continues (edit_phone dated new_phone)"
    using assms 1 by (simp add: edit_prepare_def)
  show "dict_get (edit_phone dated new_phone) ''name'' = Some (JStr n)" by (rule 2)
  show "new_record (edit_phone dated new_phone)
           = Inr (JObj [(''name'', JStr n), (''phone'', merged p new_phone),
                        (''date'', merged d new_date_str)])"
    using 2 by (simp add: new_record_def)
qed

lemma edit_selected_files:
  "edit_prepare today upcoming search_var sel nd np = Continues d
     \<Longrightarrow> update_saved d (load_appointments lib fs) = Inr saved \<Longrightarrow> writable fs
     \<Longrightarrow> appointments_file (snd (edit_selected lib today fs upcoming search_var sel nd np))
           = Some (json_dump lib (JArr saved))"
  by (simp add: edit_selected_def save_appointments_def split: prod.splits sum.splits)

text \<open>
  C2: an edit finds the record to update in the persisted list by name only. The record
  selected in the list has the name \<open>n\<close>, the phone \<open>p\<close> and the date \<open>d\<close>; the new date,
  if one is given, passes the validation. When the reloaded list holds records and the file
  can be written, the file then holds the reloaded list with the first record of the name
  \<open>n\<close> replaced by the merged record: the name \<open>n\<close>, the new phone and the new date where
  given, the former ones where not. Nothing is asked of the phone and the date of the
  replaced record.
\<close>

theorem edit_replaces_first_by_name:
  assumes "filter_matches (lower (strip search_var)) upcoming = Inr current_list"
    and "index < length current_list"
    and "current_list ! index = JObj appt_to_edit"
    and "dict_get appt_to_edit ''name'' = Some (JStr n)"
    and "dict_get appt_to_edit ''phone'' = Some p"
    and "dict_get appt_to_edit ''date'' = Some d"
    and "edit_date today appt_to_edit new_date_str = Inr dated"
    and "load_appointments lib fs = JArr xs"
    and "list_all is_obj xs"
    and "writable fs"
    and "i < length xs"
    and "name_is n (xs ! i)"
    and "\<forall>j<i. \<not> name_is n (xs ! j)"
  shows "appointments_file
           (snd (edit_selected lib today fs upcoming search_var (Some index) new_date_str new_phone))
         = Some (json_dump lib
             (JArr (xs[i := JObj [(''name'', JStr n), (''phone'', merged p new_phone),
                                  (''date'', merged d new_date_str)]])))"
proof -
  let ?d = "edit_phone dated new_phone"
  let ?new = "JObj [(''name'', JStr n), (''phone'', merged p new_phone),
                    (''date'', merged d new_date_str)]"
  note s = edit_prepare_selected [OF assms(1-7), of new_phone]
  have "replace_first ?d ?new xs = Some (xs[i := ?new])"
    using assms(11-13) by (intro replace_first_at) (simp_all add: same_name_name_is [OF s(2)])
  then have "update_saved ?d (load_appointments lib fs) = Inr (xs[i := ?new])"
    using assms(8,9) s(3) by (simp add: update_saved_def)
  with s(1) show ?thesis using assms(10) by (rule edit_selected_files)
qed

text \<open>
  Two patients called Ann have an appointment each. The second one is selected and moved
  to 2099-02-01: the file then holds that record in the place of the first one, whose
  phone and date are lost, and the selected record is still there with its former date.
\<close>

theorem edit_replaces_first_by_name_witness:
  "appointments_file
     (snd (edit_selected
        (lib_table [(''stored'', JArr [appt_json ''Ann'' ''111'' ''2098-03-03'',
                                       appt_json ''Ann'' ''999'' ''2099-01-05'']),
                    (''edited'', JArr [appt_json ''Ann'' ''999'' ''2099-02-01'',
                                       appt_json ''Ann'' ''999'' ''2099-01-05''])])
        (2024, 6, 1)
        \<lparr>treatments_file = None, appointments_file = Some ''stored'', writable = True\<rparr>
        [appt_json ''Ann'' ''111'' ''2098-03-03'', appt_json ''Ann'' ''999'' ''2099-01-05'']
        [] (Some 1) (Some ''2099-02-01'') None))
   = Some ''edited''"
proof -
  let ?xs = "[appt_json ''Ann'' ''111'' ''2098-03-03'', appt_json ''Ann'' ''999'' ''2099-01-05'']"
  let ?ys = "[appt_json ''Ann'' ''999'' ''2099-02-01'', appt_json ''Ann'' ''999'' ''2099-01-05'']"
  let ?lib = "lib_table [(''stored'', JArr ?xs), (''edited'', JArr ?ys)]"
  let ?fs = "\<lparr>treatments_file = None, appointments_file = Some ''stored'', writable = True\<rparr>"
  let ?t = "[(''name'', JStr ''Ann''), (''phone'', JStr ''999''), (''date'', JStr ''2099-01-05'')]"
  have 1: "filter_matches (lower (strip [])) ?xs = Inr ?xs"
    by (simp add: strip_def lower_def matches_def appt_json_def get_default_def dict_get_def)
  have 2: "(1::nat) < length ?xs" by simp
  have 3: "?xs ! 1 = JObj ?t" by (simp add: appt_json_def)
  have 4: "dict_get ?t ''name'' = Some (JStr ''Ann'')" by (simp add: dict_get_def)
  have 5: "dict_get ?t ''phone'' = Some (JStr ''999'')" by (simp add: dict_get_def)
  have 6: "dict_get ?t ''date'' = Some (JStr ''2099-01-05'')" by (simp add: dict_get_def)
  have 7: "edit_date (2024, 6, 1) ?t (Some ''2099-02-01'')
             = Inr (dict_set ''date'' (JStr ''2099-02-01'') ?t)"
    by (simp add: edit_date_def strptime_ymd_def parse_month_day_def is_digit_def digit_val_def
          days_in_month_def)
  have 8: "load_appointments ?lib ?fs = JArr ?xs"
    by (simp add: load_appointments_def lib_table_def)
  have 9: "list_all is_obj ?xs" by (simp add: is_obj_def appt_json_def)
  have 10: "writable ?fs" by simp
  have 11: "(0::nat) < length ?xs" by simp
  have 12: "name_is ''Ann'' (?xs ! 0)" by (simp add: name_is_def appt_json_def dict_get_def)
  have 13: "\<forall>j<(0::nat). \<not> name_is ''Ann'' (?xs ! j)" by simp
  show ?thesis
    using edit_replaces_first_by_name [OF 1 2 3 4 5 6 7 8 9 10 11 12 13, of None]
    by (simp add: merged_def lib_table_def appt_json_def)
qed

text \<open>
  What the validation of a booking and of an edit does reject: a blank field, a date that
  \<open>strptime\<close> refuses and a date before today end in an error dialog, and the files are
  as they were.
\<close>

lemma book_rejects:
  "strip n = [] \<or> strip p = [] \<or> strip d = [] \<or> strptime_ymd (strip d) = None
     \<or> (\<exists>dt. strptime_ymd (strip d) = Some dt \<and> date_less dt today)
   \<Longrightarrow> \<exists>msg. save_appointment lib today fs n p d = (Inr [ShowError ''Input Error'' msg], fs)"
  by (auto simp: save_appointment_def Let_def split: option.splits)

lemma edit_rejects:
  "filter_matches (lower (strip search_var)) upcoming = Inr current_list
   \<Longrightarrow> index < length current_list \<Longrightarrow> current_list ! index = JObj appt_to_edit
   \<Longrightarrow> dict_get appt_to_edit ''date'' = Some d
   \<Longrightarrow> s \<noteq> [] \<Longrightarrow> strptime_ymd s = None \<or> (\<exists>dt. strptime_ymd s = Some dt \<and> date_less dt today)
   \<Longrightarrow> \<exists>msg. edit_selected lib today fs upcoming search_var (Some index) (Some s) np
               = (Inr [ShowError ''Invalid Date'' msg], fs)"
  by (auto simp: edit_selected_def edit_prepare_def edit_date_def split: option.splits)

text \<open>
  C3: a booking or an edit whose date is not in YYYY-MM-DD form fails with a validation
  error and leaves the persisted appointments unchanged. The code does not do so for a date
  that lacks the leading zeros: \<open>strptime\<close> accepts 2099-1-5, and the booking stores the
  text as typed. The theorem evaluates the booking at that input, on 2024-06-01 and with
  no appointments file yet.
\<close>

theorem book_unpadded_date_accepted:
  "save_appointment lib (2024, 6, 1)
     \<lparr>treatments_file = None, appointments_file = None, writable = True\<rparr>
     ''Ann'' ''123'' ''2099-1-5''
   = (Inr [ShowInfo ''Success'' ''Appointment booked for Ann on 2099-1-5''],
      \<lparr>treatments_file = None,
       appointments_file = Some (json_dump lib (JArr [appt_json ''Ann'' ''123'' ''2099-1-5''])),
       writable = True\<rparr>)"
  by (simp add: Let_def save_appointment_def strip_def is_space_def strptime_ymd_def
        parse_month_day_def is_digit_def digit_val_def days_in_month_def load_appointments_def
        save_appointments_def)


text \<open>
  C10: the edit of a selected record, as in C2. When the reloaded list holds records and
  the file can be written, the file then holds a list that contains the merged record and
  is at least as long as the reloaded list; when no record of the reloaded list has the
  name of the edited record, it is the reloaded list with the merged record appended.
\<close>

theorem edit_appends_when_name_absent:
  assumes "filter_matches (lower (strip search_var)) upcoming = Inr current_list"
    and "index < length current_list"
    and "current_list ! index = JObj appt_to_edit"
    and "dict_get appt_to_edit ''name'' = Some (JStr n)"
    and "dict_get appt_to_edit ''phone'' = Some p"
    and "dict_get appt_to_edit ''date'' = Some d"
    and "edit_date today appt_to_edit new_date_str = Inr dated"
    and "load_appointments lib fs = JArr xs"
    and "list_all is_obj xs"
    and "writable fs"
  shows "\<exists>ys. appointments_file
                (snd (edit_selected lib today fs upcoming search_var (Some index) new_date_str new_phone))
              = Some (json_dump lib (JArr ys))
           \<and> JObj [(''name'', JStr n), (''phone'', merged p new_phone),
                   (''date'', merged d new_date_str)] \<in> set ys
           \<and> length xs \<le> length ys
           \<and> ((\<forall>a\<in>set xs. \<not> name_is n a)
                \<longrightarrow> ys = xs @ [JObj [(''name'', JStr n), (''phone'', merged p new_phone),
                                      (''date'', merged d new_date_str)]])"
proof -
  let ?d = "edit_phone dated new_phone"
  let ?new = "JObj [(''name'', JStr n), (''phone'', merged p new_phone),
                    (''date'', merged d new_date_str)]"
  let ?ys = "case replace_first ?d ?new xs of Some ys \<Rightarrow> ys | None \<Rightarrow> xs @ [?new]"
  note s = edit_prepare_selected [OF assms(1-7), of new_phone]
  have "update_saved ?d (load_appointments lib fs) = Inr ?ys"
    using assms(8,9) s(3) by (simp add: update_saved_def)
  with s(1) have 1: "appointments_file
        (snd (edit_selected lib today fs upcoming search_var (Some index) new_date_str new_phone))
      = Some (json_dump lib (JArr ?ys))"
    using assms(10) by (rule edit_selected_files)
  have 2: "?new \<in> set ?ys \<and> length xs \<le> length ?ys"
    by (cases "replace_first ?d ?new xs") (auto dest: replace_first_Some)
  have 3: "(\<forall>a\<in>set xs. \<not> name_is n a) \<longrightarrow> ?ys = xs @ [?new]"
    using replace_first_None [of ?d ?new xs] by (auto simp: same_name_name_is [OF s(2)])
  from 1 2 3 show ?thesis by blast
qed

text \<open>
  The stored list holds an appointment of Bob only; the list on screen still shows one of
  Ann, which is selected and given the phone 222. The file then holds Bob's record and,
  after it, Ann's.
\<close>

theorem edit_appends_when_name_absent_witness:
  "list_all (\<lambda>a. \<not> name_is ''Ann'' a) [appt_json ''Bob'' ''555'' ''2099-03-03'']
   \<and> appointments_file
       (snd (edit_selected
          (lib_table [(''stored'', JArr [appt_json ''Bob'' ''555'' ''2099-03-03'']),
                      (''edited'', JArr [appt_json ''Bob'' ''555'' ''2099-03-03'',
                                         appt_json ''Ann'' ''222'' ''2099-01-05''])])
          (2024, 6, 1)
          \<lparr>treatments_file = None, appointments_file = Some ''stored'', writable = True\<rparr>
          [appt_json ''Ann'' ''111'' ''2099-01-05''] ''ann'' (Some 0) None (Some ''222'')))
     = Some ''edited''"
proof -
  let ?xs = "[appt_json ''Bob'' ''555'' ''2099-03-03'']"
  let ?ys = "[appt_json ''Bob'' ''555'' ''2099-03-03'', appt_json ''Ann'' ''222'' ''2099-01-05'']"
  let ?up = "[appt_json ''Ann'' ''111'' ''2099-01-05'']"
  let ?lib = "lib_table [(''stored'', JArr ?xs), (''edited'', JArr ?ys)]"
  let ?fs = "\<lparr>treatments_file = None, appointments_file = Some ''stored'', writable = True\<rparr>"
  let ?t = "[(''name'', JStr ''Ann''), (''phone'', JStr ''111''), (''date'', JStr ''2099-01-05'')]"
  have 1: "filter_matches (lower (strip ''ann'')) ?up = Inr ?up"
    by code_simp
  have 2: "(0::nat) < length ?up" by simp
  have 3: "?up ! 0 = JObj ?t" by (simp add: appt_json_def)
  have 4: "dict_get ?t ''name'' = Some (JStr ''Ann'')" by (simp add: dict_get_def)
  have 5: "dict_get ?t ''phone'' = Some (JStr ''111'')" by (simp add: dict_get_def)
  have 6: "dict_get ?t ''date'' = Some (JStr ''2099-01-05'')" by (simp add: dict_get_def)
  have 7: "edit_date (2024, 6, 1) ?t None = Inr ?t" by (simp add: edit_date_def)
  have 8: "load_appointments ?lib ?fs = JArr ?xs"
    by (simp add: load_appointments_def lib_table_def)
  have 9: "list_all is_obj ?xs" by (simp add: is_obj_def appt_json_def)
  have 10: "writable ?fs" by simp
  have n: "\<forall>a\<in>set ?xs. \<not> name_is ''Ann'' a" by (simp add: name_is_def appt_json_def dict_get_def)
  from edit_appends_when_name_absent [OF 1 2 3 4 5 6 7 8 9 10, of "Some ''222''"] n
  have "appointments_file
       (snd (edit_selected ?lib (2024, 6, 1) ?fs ?up ''ann'' (Some 0) None (Some ''222'')))
     = Some (json_dump ?lib (JArr (?xs @ [JObj [(''name'', JStr ''Ann''),
               (''phone'', merged (JStr ''111'') (Some ''222'')),
               (''date'', merged (JStr ''2099-01-05'') None)]])))"
    by auto
  then show ?thesis
    using n by (simp add: merged_def lib_table_def appt_json_def)
qed

section \<open>Properties of the search\<close>

lemma matches_text:
  "has_text_fields a \<Longrightarrow>
     matches q a = Inr (contains (lower (text_of ''name'' a)) q \<or> contains (text_of ''phone'' a) q)"
  by (auto simp: has_text_fields_def matches_def text_of_def get_default_def py_in_def
           split: json.splits option.splits)

lemma filter_matches_text:
  "list_all has_text_fields xs \<Longrightarrow>
     filter_matches q xs =
       Inr (filter (\<lambda>a. contains (lower (text_of ''name'' a)) q \<or> contains (text_of ''phone'' a) q) xs)"
  by (induction xs) (auto simp: matches_text)

text \<open>
  C5, as the code has it: the query is trimmed and lower-cased first. When nothing is left,
  the search gives the list it was given; otherwise it keeps exactly the records where the
  trimmed, lower-cased query occurs in the lower-cased name or in the phone as stored.
\<close>

theorem search_keeps_matches:
  assumes "list_all has_text_fields upcoming"
  shows "search_appointments search_var upcoming =
           Inr (if lower (strip search_var) = [] then upcoming
                else filter (\<lambda>a. contains (lower (text_of ''name'' a)) (lower (strip search_var))
                               \<or> contains (text_of ''phone'' a) (lower (strip search_var))) upcoming)"
  using assms by (simp add: search_appointments_def Let_def filter_matches_text)

theorem search_keeps_matches_witness:
  "list_all has_text_fields [appt_json ''Bob'' ''555'' ''2099-01-01'', appt_json ''Ann'' ''777'' ''2099-01-02'']
   \<and> search_appointments '' bO '' [appt_json ''Bob'' ''555'' ''2099-01-01'', appt_json ''Ann'' ''777'' ''2099-01-02'']
       = Inr [appt_json ''Bob'' ''555'' ''2099-01-01'']"
proof -
  have h: "list_all has_text_fields [appt_json ''Bob'' ''555'' ''2099-01-01'', appt_json ''Ann'' ''777'' ''2099-01-02'']"
    by (simp add: has_text_fields_def appt_json_def dict_get_def)
  have "(if lower (strip '' bO '') = [] then [appt_json ''Bob'' ''555'' ''2099-01-01'', appt_json ''Ann'' ''777'' ''2099-01-02'']
                else filter (\<lambda>a. contains (lower (text_of ''name'' a)) (lower (strip '' bO ''))
                               \<or> contains (text_of ''phone'' a) (lower (strip '' bO ''))) [appt_json ''Bob'' ''555'' ''2099-01-01'', appt_json ''Ann'' ''777'' ''2099-01-02''])
        = [appt_json ''Bob'' ''555'' ''2099-01-01'']"
    by code_simp
  with search_keeps_matches [OF h, of "'' bO ''"] h show ?thesis by simp
qed

text \<open>
  C5 as stated fails for a query of two blanks, which is not empty: it occurs neither in
  the name nor in the phone of the record, and the search keeps the record.
\<close>

theorem search_blank_query_counterexample:
  "''  '' \<noteq> []
   \<and> \<not> contains (lower ''Bob'') (lower ''  '') \<and> \<not> contains ''555'' ''  ''
   \<and> search_appointments ''  '' [appt_json ''Bob'' ''555'' ''2099-01-01'']
       = Inr [appt_json ''Bob'' ''555'' ''2099-01-01'']"
  by code_simp

section \<open>Properties of the upcoming view\<close>

lemma upt_shift: "i # [Suc i ..< Suc i + n] = [i ..< i + Suc n]"
  by (simp add: upt_conv_Cons del: upt_Suc)

lemma collect_upcoming_eq:
  "\<forall>a\<in>set appointments. a < length h \<Longrightarrow>
     collect_upcoming today h appointments =
       (h @ filter (is_upcoming today) (map ((!) h) appointments),
        [length h ..< length h + length (filter (is_upcoming today) (map ((!) h) appointments))])"
proof (induction appointments arbitrary: h)
  case Nil
  then show ?case by simp
next
  case (Cons a rest)
  let ?vs = "filter (is_upcoming today) (map ((!) h) rest)"
  from Cons.prems have a: "a < length h" and r: "\<forall>b\<in>set rest. b < length h" by auto
  show ?case
  proof (cases "is_upcoming today (h ! a)")
    case False
    with a r Cons.IH [of h] show ?thesis by (simp add: deref_def)
  next
    case True
    have r': "\<forall>b\<in>set rest. b < length (h @ [h ! a])" using r by auto
    have m: "map ((!) (h @ [h ! a])) rest = map ((!) h) rest"
      using r by (simp add: nth_append)
    have "collect_upcoming today (h @ [h ! a]) rest =
            ((h @ [h ! a]) @ ?vs, [Suc (length h) ..< Suc (length h) + length ?vs])"
      using Cons.IH [OF r'] m by simp
    then have "collect_upcoming today h (a # rest) =
            (h @ h ! a # ?vs, length h # [Suc (length h) ..< Suc (length h) + length ?vs])"
      using True a by (simp add: deref_def del: upt_Suc)
    also have "length h # [Suc (length h) ..< Suc (length h) + length ?vs]
                 = [length h ..< length h + Suc (length ?vs)]"
      by (rule upt_shift)
    finally show ?thesis using True by simp
  qed
qed

lemma is_upcoming_date:
  "is_upcoming today v \<Longrightarrow> \<exists>d. appt_date_of v = Some d \<and> \<not> date_less d today"
  by (auto simp: is_upcoming_def split: option.splits)

text \<open>
  C4: every record of the upcoming view has a date that is not before today; it is a new
  object (its address is none of the heap the list was loaded into) with the content of a
  stored record, so that an update of it leaves every stored record as it was, and the
  stored objects are untouched; the view is sorted in non-decreasing order of the date
  strings.
\<close>

theorem upcoming_view:
  assumes v: "view_appointments today h appointments = Listing h' upcoming"
    and b: "\<forall>a\<in>set appointments. a < length h"
  shows "(\<forall>r\<in>set upcoming.
            (\<exists>d. appt_date_of (h' ! r) = Some d \<and> \<not> date_less d today)
            \<and> length h \<le> r \<and> r < length h'
            \<and> (\<exists>a\<in>set appointments. h' ! r = h ! a)
            \<and> (\<forall>a\<in>set appointments. \<forall>w. (h'[r := w]) ! a = h ! a))
       \<and> distinct upcoming
       \<and> take (length h) h' = h
       \<and> sorted (map (key_at h') upcoming)"
proof -
  let ?vs = "filter (is_upcoming today) (map ((!) h) appointments)"
  let ?up = "[length h ..< length h + length ?vs]"
  from v b have h': "h' = h @ ?vs" and up: "upcoming = sort_key (key_at h') ?up"
    by (auto simp: view_appointments_def collect_upcoming_eq split: if_splits)
  have s: "set upcoming = set ?up" using up by simp
  have 1: "(\<exists>d. appt_date_of (h' ! r) = Some d \<and> \<not> date_less d today)
            \<and> length h \<le> r \<and> r < length h'
            \<and> (\<exists>a\<in>set appointments. h' ! r = h ! a)
            \<and> (\<forall>a\<in>set appointments. \<forall>w. (h'[r := w]) ! a = h ! a)" if "r \<in> set upcoming" for r
  proof -
    from that s have r: "length h \<le> r" "r < length h + length ?vs" by auto
    then have e: "h' ! r = ?vs ! (r - length h)" and i: "r - length h < length ?vs"
      by (auto simp: h' nth_append)
    from i have m: "?vs ! (r - length h) \<in> set ?vs" by (rule nth_mem)
    then have "is_upcoming today (h' ! r)" using e by simp
    then have d: "\<exists>d. appt_date_of (h' ! r) = Some d \<and> \<not> date_less d today"
      by (rule is_upcoming_date)
    from m e have c: "\<exists>a\<in>set appointments. h' ! r = h ! a" by auto
    have u: "\<forall>a\<in>set appointments. \<forall>w. (h'[r := w]) ! a = h ! a"
      using b r by (auto simp: h' nth_append)
    from d r c u show ?thesis by (simp add: h')
  qed
  have 2: "distinct upcoming" using up by simp
  have 3: "take (length h) h' = h" by (simp add: h')
  have 4: "sorted (map (key_at h') upcoming)" using up by simp
  from 1 2 3 4 show ?thesis by blast
qed

theorem upcoming_view_witness:
  "view_appointments (2024, 6, 1)
      [appt_json ''Ann'' ''1'' ''2099-01-05'', appt_json ''Bob'' ''2'' ''2000-01-01'',
       appt_json ''Cy'' ''3'' ''2098-07-01'', JStr ''junk''] [0, 1, 2, 3]
     = Listing
         [appt_json ''Ann'' ''1'' ''2099-01-05'', appt_json ''Bob'' ''2'' ''2000-01-01'',
          appt_json ''Cy'' ''3'' ''2098-07-01'', JStr ''junk'',
          appt_json ''Ann'' ''1'' ''2099-01-05'', appt_json ''Cy'' ''3'' ''2098-07-01''] [5, 4]
   \<and> list_all (\<lambda>a. a < length [appt_json ''Ann'' ''1'' ''2099-01-05'',
                                   appt_json ''Bob'' ''2'' ''2000-01-01'',
                                   appt_json ''Cy'' ''3'' ''2098-07-01'', JStr ''junk'']) [0, 1, 2, 3]
   \<and> list_all (\<lambda>r. 4 \<le> r \<and> r < 6) [5, 4::nat]
   \<and> sorted (map (key_at
         [appt_json ''Ann'' ''1'' ''2099-01-05'', appt_json ''Bob'' ''2'' ''2000-01-01'',
          appt_json ''Cy'' ''3'' ''2098-07-01'', JStr ''junk'',
          appt_json ''Ann'' ''1'' ''2099-01-05'', appt_json ''Cy'' ''3'' ''2098-07-01'']) [5, 4])"
proof -
  let ?h = "[appt_json ''Ann'' ''1'' ''2099-01-05'', appt_json ''Bob'' ''2'' ''2000-01-01'',
             appt_json ''Cy'' ''3'' ''2098-07-01'', JStr ''junk'']"
  let ?h' = "[appt_json ''Ann'' ''1'' ''2099-01-05'', appt_json ''Bob'' ''2'' ''2000-01-01'',
          appt_json ''Cy'' ''3'' ''2098-07-01'', JStr ''junk'',
          appt_json ''Ann'' ''1'' ''2099-01-05'', appt_json ''Cy'' ''3'' ''2098-07-01'']"
  have v: "view_appointments (2024, 6, 1) ?h [0, 1, 2, 3] = Listing ?h' [5, 4]"
    by code_simp
  have b: "\<forall>a\<in>set [0, 1, 2, 3::nat]. a < length ?h" by simp
  have l: "length ?h = 4" "length ?h' = 6" by simp_all
  note t = upcoming_view [OF v b]
  from t have 1: "\<forall>r\<in>set [5, 4::nat]. 4 \<le> r \<and> r < 6" unfolding l by blast
  from t have 2: "sorted (map (key_at ?h') [5, 4])" by blast
  from v b 1 2 show ?thesis unfolding list_all_iff by blast
qed

section \<open>Properties of the catalog and of the two files\<close>

lemma dict_set_fresh: "k \<notin> fst ` set acc \<Longrightarrow> dict_set k n acc = acc @ [(k, n)]"
  by (induction acc) auto

lemma build_treatments_ints:
  "distinct (map fst (acc @ c)) \<Longrightarrow>
     build_treatments (map (\<lambda>(k, n). (k, JInt n)) c) acc = Inr (acc @ c)"
proof (induction c arbitrary: acc)
  case Nil
  then show ?case by simp
next
  case (Cons p c)
  obtain k n where p: "p = (k, n)" by (cases p)
  from Cons.prems p have f: "k \<notin> fst ` set acc" by auto
  from Cons.prems p have d: "distinct (map fst ((acc @ [(k, n)]) @ c))" by auto
  show ?case
    using Cons.IH [OF d] f p by (simp add: py_int_def dict_set_fresh)
qed

lemma build_treatments_error:
  "(k, v) \<in> set d \<Longrightarrow> py_int v = Inl e \<Longrightarrow> \<exists>e'. build_treatments d acc = Inl e'"
  by (induction d acc rule: build_treatments.induct) (auto split: sum.splits)

lemma build_treatments_values:
  "distinct (map fst acc @ map fst d) \<Longrightarrow> \<forall>(k, v)\<in>set d. \<exists>n. py_int v = Inr n
     \<Longrightarrow> build_treatments d acc = Inr (acc @ int_values d)"
proof (induction d arbitrary: acc)
  case Nil
  then show ?case by (simp add: int_values_def)
next
  case (Cons p d)
  obtain k v where p: "p = (k, v)" by (cases p)
  from Cons.prems(2) p obtain n where n: "py_int v = Inr n" by auto
  from Cons.prems(1) p have f: "k \<notin> fst ` set acc" by auto
  from Cons.prems(1) p have d: "distinct (map fst (acc @ [(k, n)]) @ map fst d)" by auto
  from Cons.prems(2) have r: "\<forall>(k, v)\<in>set d. \<exists>n. py_int v = Inr n" by simp
  show ?case
    using Cons.IH [OF d r] f p n by (simp add: dict_set_fresh int_values_def)
qed

text \<open>
  What \<open>int\<close> converts among the values of JSON: every int, boolean and finite float, and
  the strings that \<open>int\<close> parses; it raises on null, on a list, on an object, on NaN and on
  the infinities.
\<close>

lemma py_int_converts:
  "py_int (JInt n) = Inr n"
  "py_int (JBool b) = Inr (if b then 1 else 0)"
  "py_int (JFloat (Fin q)) = Inr (if 0 \<le> q then \<lfloor>q\<rfloor> else \<lceil>q\<rceil>)"
  "py_int (JStr s) = int_of_str s"
  "py_int JNull = Inl TypeError"
  "py_int (JArr xs) = Inl TypeError"
  "py_int (JObj d) = Inl TypeError"
  "py_int (JFloat NaN) = Inl ValueError"
  "py_int (JFloat PInf) = Inl OverflowError"
  "py_int (JFloat NInf) = Inl OverflowError"
  by (simp_all add: py_int_def)

text \<open>
  C7, as the code has it: \<open>load_treatments\<close> always returns a catalog. The catalog is
  empty when the file is missing, when its text does not parse, when the parsed value is
  not an object, and when \<open>int\<close> fails on the value of some entry. When \<open>int\<close> converts
  the value of every entry of the object, the catalog holds every key with its converted
  value: no entry is rejected for a value that is a boolean, a float or a string.
\<close>

theorem load_treatments_degrades:
  "((treatments_file fs = None
      \<or> (\<exists>text. treatments_file fs = Some text
            \<and> (json_load lib text = None
                \<or> (\<exists>data. json_load lib text = Some data
                      \<and> (\<not> is_obj data
                          \<or> (\<exists>d k v e. data = JObj d \<and> (k, v) \<in> set d \<and> py_int v = Inl e))))))
     \<longrightarrow> load_treatments lib fs = [])
   \<and> (\<forall>text d. treatments_file fs = Some text \<and> json_load lib text = Some (JObj d)
          \<and> distinct (map fst d) \<and> (\<forall>(k, v)\<in>set d. \<exists>n. py_int v = Inr n)
        \<longrightarrow> load_treatments lib fs = int_values d)"
proof (intro conjI impI allI)
  assume a: "treatments_file fs = None
      \<or> (\<exists>text. treatments_file fs = Some text
            \<and> (json_load lib text = None
                \<or> (\<exists>data. json_load lib text = Some data
                      \<and> (\<not> is_obj data
                          \<or> (\<exists>d k v e. data = JObj d \<and> (k, v) \<in> set d \<and> py_int v = Inl e)))))"
  show "load_treatments lib fs = []"
  proof (cases "treatments_file fs")
    case None
    then show ?thesis by (simp add: load_treatments_def)
  next
    case (Some s)
    show ?thesis
    proof (cases "json_load lib s")
      case None
      with Some show ?thesis by (simp add: load_treatments_def)
    next
      case (Some data)
      with \<open>treatments_file fs = Some s\<close> a
      have c: "\<not> is_obj data \<or> (\<exists>d k v e. data = JObj d \<and> (k, v) \<in> set d \<and> py_int v = Inl e)"
        by simp
      show ?thesis
      proof (cases data)
        case (JObj d)
        with c obtain k v e where "(k, v) \<in> set d" "py_int v = Inl e"
          by (auto simp: is_obj_def)
        then obtain e' where "build_treatments d [] = Inl e'"
          using build_treatments_error by blast
        with JObj Some \<open>treatments_file fs = Some s\<close> show ?thesis
          by (simp add: load_treatments_def)
      qed (use Some \<open>treatments_file fs = Some s\<close> in \<open>simp_all add: load_treatments_def\<close>)
    qed
  qed
next
  fix s d
  assume b: "treatments_file fs = Some s \<and> json_load lib s = Some (JObj d)
          \<and> distinct (map fst d) \<and> (\<forall>(k, v)\<in>set d. \<exists>n. py_int v = Inr n)"
  then have "build_treatments d [] = Inr ([] @ int_values d)"
    by (intro build_treatments_values) simp_all
  with b show "load_treatments lib fs = int_values d"
    by (simp add: load_treatments_def)
qed

text \<open>
  A catalog file with a price that is not a number is loaded as the empty catalog; a
  catalog file whose prices are a string of digits, a fraction and a boolean is loaded
  with the prices 250, 3 and 1.
\<close>

theorem load_treatments_degrades_witness:
  "py_int (JStr ''ninety'') = Inl ValueError
   \<and> load_treatments (lib_table [(''T'', JObj [(''Botox'', JInt 250), (''Peel'', JStr ''ninety'')])])
        \<lparr>treatments_file = Some ''T'', appointments_file = None, writable = True\<rparr> = []
   \<and> load_treatments
        (lib_table [(''T'', JObj [(''Botox'', JStr ''250''), (''Peel'', JFloat (Fin (7 / 2))),
                                  (''Laser'', JBool True)])])
        \<lparr>treatments_file = Some ''T'', appointments_file = None, writable = True\<rparr>
       = [(''Botox'', 250), (''Peel'', 3), (''Laser'', 1)]"
proof -
  let ?fs = "\<lparr>treatments_file = Some ''T'', appointments_file = None, writable = True\<rparr>"
  let ?d = "[(''Botox'', JInt 250), (''Peel'', JStr ''ninety'')]"
  let ?c = "[(''Botox'', JStr ''250''), (''Peel'', JFloat (Fin (7 / 2))), (''Laser'', JBool True)]"
  have p: "py_int (JStr ''ninety'') = Inl ValueError"
    by (simp add: py_int_def int_of_str_def int_strip_def int_space_def parse_unsigned_def
          is_digit_def)
  have s: "py_int (JStr ''250'') = Inr 250"
    by (simp add: py_int_def int_of_str_def int_strip_def int_space_def parse_unsigned_def
          is_digit_def digit_val_def)
  have f: "py_int (JFloat (Fin (7 / 2))) = Inr 3"
  proof -
    have "\<lfloor>7 / 2 :: rat\<rfloor> = 3" by (simp add: floor_numeral_div)
    then show ?thesis by (simp add: py_int_def)
  qed
  have b: "py_int (JBool True) = Inr 1" by (simp add: py_int_def)
  have 1: "load_treatments (lib_table [(''T'', JObj ?d)]) ?fs = []"
    using load_treatments_degrades [of ?fs "lib_table [(''T'', JObj ?d)]"] p
    by (simp add: lib_table_def is_obj_def) blast
  have "load_treatments (lib_table [(''T'', JObj ?c)]) ?fs = int_values ?c"
    using load_treatments_degrades [of ?fs "lib_table [(''T'', JObj ?c)]"] s f b
    by (simp add: lib_table_def)
  then have 2: "load_treatments (lib_table [(''T'', JObj ?c)]) ?fs
                  = [(''Botox'', 250), (''Peel'', 3), (''Laser'', 1)]"
    using s f b by (simp add: int_values_def)
  from p 1 2 show ?thesis by simp
qed

text \<open>
  C7 as stated fails for entries of the wrong type that \<open>int\<close> converts: a price written
  as a string, a price written as a fraction and a price written as \<open>true\<close> are loaded as
  integers, and the catalog is not empty.
\<close>

theorem load_treatments_coerces_counterexample:
  "load_treatments
     (lib_table [(''T'', JObj [(''Botox'', JStr ''250''), (''Peel'', JFloat (Fin (7 / 2))),
                               (''Laser'', JBool True)])])
     \<lparr>treatments_file = Some ''T'', appointments_file = None, writable = True\<rparr>
   = [(''Botox'', 250), (''Peel'', 3), (''Laser'', 1)]"
proof -
  have s: "int_of_str ''250'' = Inr 250"
    by (simp add: int_of_str_def int_strip_def int_space_def parse_unsigned_def
          is_digit_def digit_val_def)
  have "\<lfloor>7 / 2 :: rat\<rfloor> = 3" by (simp add: floor_numeral_div)
  with s show ?thesis
    by (simp add: load_treatments_def lib_table_def py_int_def)
qed

text \<open>
  Saving and loading again, for a library that reads back the value it wrote: the program's
  own conversions \<open>str(k)\<close> and \<open>int(v)\<close> are the identity on a catalog, and an appointment
  list is returned as it was read.
\<close>

lemma load_after_save:
  assumes "writable fs"
  shows "distinct (map fst treatments_dict)
         \<Longrightarrow> json_load lib (json_dump lib (catalog_json treatments_dict))
               = Some (catalog_json treatments_dict)
         \<Longrightarrow> load_treatments lib (snd (save_treatments lib fs treatments_dict)) = treatments_dict"
    and "json_load lib (json_dump lib appointments) = Some appointments
         \<Longrightarrow> load_appointments lib (snd (save_appointments lib fs appointments)) = appointments"
  using assms build_treatments_ints [of "[]" treatments_dict]
  by (simp_all add: load_treatments_def save_treatments_def load_appointments_def
        save_appointments_def catalog_json_def)

section \<open>Properties of the rounding to a double\<close>

text \<open>
  \<open>floor_log2\<close> is the binary exponent; a number within the finite range rounds to a
  finite double of that range, on the same side of zero; and a number of the unit
  interval rounds into the unit interval.
\<close>

lemma ilog2_bounds: "0 < n \<Longrightarrow> 2 ^ ilog2 n \<le> n \<and> n < 2 ^ Suc (ilog2 n)"
proof (induction n rule: ilog2.induct)
  case (1 n)
  show ?case
  proof (cases "n < 2")
    case True
    with 1(2) have "n = 1" by simp
    then show ?thesis by (simp add: ilog2.simps)
  next
    case False
    then have "0 < n div 2" by simp
    with 1(1) False have ih: "2 ^ ilog2 (n div 2) \<le> n div 2" "n div 2 < 2 ^ Suc (ilog2 (n div 2))"
      by simp_all
    have e: "ilog2 n = Suc (ilog2 (n div 2))" using False by (subst ilog2.simps) simp
    from ih(1) have "2 * 2 ^ ilog2 (n div 2) \<le> n" by linarith
    moreover from ih(2) have "n < 2 * 2 ^ Suc (ilog2 (n div 2))" by linarith
    ultimately show ?thesis by (simp add: e)
  qed
qed

lemma pow2_pos: "0 < pow2 k"
  by (simp add: pow2_def)

lemma pow2_Suc: "pow2 (k + 1) = 2 * pow2 k"
proof (cases "0 \<le> k")
  case True
  then have "nat (k + 1) = Suc (nat k)" by simp
  with True show ?thesis by (simp add: pow2_def)
next
  case False
  then have "nat (- k) = Suc (nat (- (k + 1)))" by simp
  with False show ?thesis by (simp add: pow2_def)
qed

lemma pow2_nat: "pow2 (int n) = 2 ^ n"
  by (simp add: pow2_def)

lemma pow2_neg_nat: "pow2 (- int n) = 1 / 2 ^ n"
proof (cases "n = 0")
  case True
  then show ?thesis by (simp add: pow2_def)
next
  case False
  then have "\<not> 0 \<le> - int n" by simp
  then show ?thesis by (simp add: pow2_def)
qed

lemma of_nat_floor_bounds:
  fixes a :: rat
  assumes "1 \<le> a"
  shows "2 ^ ilog2 (nat \<lfloor>a\<rfloor>) \<le> a \<and> a < 2 ^ Suc (ilog2 (nat \<lfloor>a\<rfloor>))"
proof -
  let ?n = "nat \<lfloor>a\<rfloor>"
  from assms have f: "1 \<le> \<lfloor>a\<rfloor>" by simp
  then have n: "0 < ?n" by simp
  from ilog2_bounds [OF n] have b: "2 ^ ilog2 ?n \<le> ?n" "?n < 2 ^ Suc (ilog2 ?n)" by simp_all
  from f have fa: "rat_of_int \<lfloor>a\<rfloor> = of_nat ?n" by simp
  have "(2::rat) ^ ilog2 ?n = of_nat (2 ^ ilog2 ?n)" by simp
  also have "\<dots> \<le> of_nat ?n" using b(1) by (simp only: of_nat_le_iff)
  also have "\<dots> \<le> a" using fa of_int_floor_le [of a] by simp
  finally have 1: "2 ^ ilog2 ?n \<le> a" .
  from b(2) have "?n + 1 \<le> 2 ^ Suc (ilog2 ?n)" by simp
  then have "(of_nat (?n + 1) :: rat) \<le> of_nat (2 ^ Suc (ilog2 ?n))" by (simp only: of_nat_le_iff)
  moreover have "a < of_nat (?n + 1)"
  proof -
    from floor_correct [of a] have "a < rat_of_int \<lfloor>a\<rfloor> + 1" by simp
    with fa show ?thesis by simp
  qed
  ultimately have 2: "a < 2 ^ Suc (ilog2 ?n)" by simp
  from 1 2 show ?thesis by simp
qed

lemma floor_log2_bounds:
  assumes "0 < a"
  shows "pow2 (floor_log2 a) \<le> a \<and> a < pow2 (floor_log2 a + 1)"
proof (cases "1 \<le> a")
  case True
  with of_nat_floor_bounds [OF True] show ?thesis
    by (simp add: floor_log2_def pow2_Suc pow2_nat)
next
  case False
  let ?b = "1 / a"
  let ?j = "ilog2 (nat \<lfloor>?b\<rfloor>)"
  from False assms have b1: "1 \<le> ?b" by simp
  from of_nat_floor_bounds [OF b1] have b: "2 ^ ?j \<le> ?b" "?b < 2 ^ Suc ?j" by simp_all
  from b(1) assms have u: "a \<le> 1 / 2 ^ ?j"
    by (simp add: field_simps)
  from b(2) assms have l: "1 / 2 ^ Suc ?j < a"
    by (simp add: field_simps)
  show ?thesis
  proof (cases "a = pow2 (- int ?j)")
    case True
    then have "floor_log2 a = - int ?j" using False by (simp add: floor_log2_def Let_def)
    moreover have "pow2 (- int ?j + 1) = 2 * pow2 (- int ?j)" by (rule pow2_Suc)
    moreover have "0 < pow2 (- int ?j)" by (rule pow2_pos)
    ultimately show ?thesis using True by (simp only:) simp
  next
    case ne: False
    then have e: "floor_log2 a = - int ?j - 1" using False by (simp add: floor_log2_def Let_def)
    have p: "pow2 (- int ?j - 1 + 1) = 1 / 2 ^ ?j" by (simp add: pow2_neg_nat)
    have "- int ?j - 1 = - int (Suc ?j)" by simp
    then have q: "pow2 (- int ?j - 1) = 1 / 2 ^ Suc ?j"
      by (simp only: pow2_neg_nat)
    from ne u have "a < 1 / 2 ^ ?j" by (simp add: pow2_neg_nat)
    with l show ?thesis by (simp only: e p q) simp
  qed
qed

lemma pow2_powi: "pow2 k = 2 powi k"
  by (simp add: pow2_def power_int_def power_inverse field_simps)

lemma pow2_add: "pow2 (k + l) = pow2 k * pow2 l"
  by (simp add: pow2_powi power_int_add)

lemma pow2_mono: "k \<le> l \<Longrightarrow> pow2 k \<le> pow2 l"
  by (simp add: pow2_powi power_int_increasing)

lemma pow2_less_exp: "pow2 k < pow2 l \<Longrightarrow> k < l"
  using pow2_mono [of l k] by (cases "k < l") auto

lemma pow2_numeral: "pow2 (numeral n) = 2 ^ numeral n"
  by (simp add: pow2_def)

lemma round_half_even_le: "x \<le> of_int n \<Longrightarrow> round_half_even x \<le> n"
proof -
  assume x: "x \<le> of_int n"
  then have f: "\<lfloor>x\<rfloor> \<le> n" by (simp add: floor_le_iff)
  show ?thesis
  proof (cases "\<lfloor>x\<rfloor> = n")
    case True
    with x have "x - of_int \<lfloor>x\<rfloor> \<le> 0" by simp
    then have "x - of_int \<lfloor>x\<rfloor> < 1 / 2" by linarith
    then show ?thesis using True by (simp add: round_half_even_def Let_def)
  next
    case False
    with f have "\<lfloor>x\<rfloor> + 1 \<le> n" by simp
    then show ?thesis by (simp add: round_half_even_def Let_def)
  qed
qed

lemma round_half_even_ge: "of_int n \<le> x \<Longrightarrow> n \<le> round_half_even x"
proof -
  assume "of_int n \<le> x"
  then have "n \<le> \<lfloor>x\<rfloor>" by (simp add: le_floor_iff)
  then show ?thesis by (simp add: round_half_even_def Let_def)
qed

lemma round_half_even_nonneg: "0 \<le> x \<Longrightarrow> 0 \<le> round_half_even x"
  using round_half_even_ge [of 0 x] by simp

lemma round_double_unfold:
  assumes "x \<noteq> 0"
  shows "round_double x =
     (if pow2 1024 \<le> of_int (round_half_even (\<bar>x\<bar> / pow2 (max (floor_log2 \<bar>x\<bar>) (- 1022) - 52)))
                        * pow2 (max (floor_log2 \<bar>x\<bar>) (- 1022) - 52)
      then (if x < 0 then NInf else PInf)
      else Fin (if x < 0
                then - (of_int (round_half_even (\<bar>x\<bar> / pow2 (max (floor_log2 \<bar>x\<bar>) (- 1022) - 52)))
                        * pow2 (max (floor_log2 \<bar>x\<bar>) (- 1022) - 52))
                else of_int (round_half_even (\<bar>x\<bar> / pow2 (max (floor_log2 \<bar>x\<bar>) (- 1022) - 52)))
                        * pow2 (max (floor_log2 \<bar>x\<bar>) (- 1022) - 52)))"
  using assms by (simp add: round_double_def Let_def)

lemma pow2_split: "pow2 (e + 1) = 2 ^ 53 * pow2 (e - 52)"
proof -
  have "e + 1 = 53 + (e - 52)" by simp
  then have "pow2 (e + 1) = pow2 (53 + (e - 52))" by (simp only:)
  also have "\<dots> = pow2 53 * pow2 (e - 52)" by (rule pow2_add)
  finally show ?thesis by (simp add: pow2_numeral)
qed

lemma mantissa_le:
  assumes "0 < a" and "floor_log2 a \<le> e"
  shows "round_half_even (a / pow2 (e - 52)) \<le> 2 ^ 53"
proof -
  from floor_log2_bounds [OF assms(1)] have "a < pow2 (floor_log2 a + 1)" by simp
  also have "\<dots> \<le> pow2 (e + 1)" using assms(2) by (simp add: pow2_mono)
  finally have "a < 2 ^ 53 * pow2 (e - 52)" by (simp only: pow2_split)
  then have "a / pow2 (e - 52) < 2 ^ 53"
    using pow2_pos [of "e - 52"] by (simp add: pos_divide_less_eq)
  then have "a / pow2 (e - 52) \<le> rat_of_int (2 ^ 53)" by simp
  then show ?thesis by (rule round_half_even_le)
qed

lemma rounded_le:
  assumes "0 < a" and "floor_log2 a \<le> e"
  shows "of_int (round_half_even (a / pow2 (e - 52))) * pow2 (e - 52) \<le> pow2 (e + 1)"
proof -
  from mantissa_le [OF assms]
  have "rat_of_int (round_half_even (a / pow2 (e - 52))) \<le> rat_of_int (2 ^ 53)"
    by (simp only: of_int_le_iff)
  then have "rat_of_int (round_half_even (a / pow2 (e - 52))) * pow2 (e - 52)
               \<le> rat_of_int (2 ^ 53) * pow2 (e - 52)"
    using pow2_pos [of "e - 52"] by (simp add: mult_right_mono)
  then show ?thesis by (simp add: pow2_split)
qed

lemma max_double_bounds: "pow2 1023 \<le> max_double" "max_double < pow2 1024" "0 < max_double"
  by (simp_all add: max_double_def pow2_numeral)

lemma max_double_eq: "max_double = (2 ^ 53 - 1) * pow2 971"
proof -
  have "pow2 1024 = 2 ^ 53 * pow2 971" using pow2_split [of 1023] by simp
  then show ?thesis by (simp add: max_double_def algebra_simps)
qed

lemma rounded_le_max:
  assumes "0 < a" and "a \<le> max_double"
  shows "of_int (round_half_even (a / pow2 (max (floor_log2 a) (- 1022) - 52)))
           * pow2 (max (floor_log2 a) (- 1022) - 52) \<le> max_double"
proof -
  let ?e = "max (floor_log2 a) (- 1022)"
  from floor_log2_bounds [OF assms(1)] assms(2) max_double_bounds(2)
  have "pow2 (floor_log2 a) < pow2 1024" by linarith
  then have "floor_log2 a < 1024" by (rule pow2_less_exp)
  then have e: "?e \<le> 1023" by simp
  have fe: "floor_log2 a \<le> ?e" by simp
  show ?thesis
  proof (cases "?e = 1023")
    case False
    with e have "?e + 1 \<le> 1023" by linarith
    then have "pow2 (?e + 1) \<le> pow2 1023" by (rule pow2_mono)
    with rounded_le [OF assms(1) fe] max_double_bounds(1) show ?thesis by linarith
  next
    case True
    have u: "pow2 (?e - 52) = pow2 971" using True by simp
    from assms(2) have "a \<le> (2 ^ 53 - 1) * pow2 971" by (simp only: max_double_eq)
    then have "a / pow2 971 \<le> 2 ^ 53 - 1"
      using pow2_pos [of 971] by (simp add: pos_divide_le_eq)
    then have "a / pow2 971 \<le> rat_of_int (2 ^ 53 - 1)" by simp
    then have "round_half_even (a / pow2 971) \<le> 2 ^ 53 - 1" by (rule round_half_even_le)
    then have "rat_of_int (round_half_even (a / pow2 971)) \<le> rat_of_int (2 ^ 53 - 1)"
      by (simp only: of_int_le_iff)
    then have "rat_of_int (round_half_even (a / pow2 971)) * pow2 971 \<le> rat_of_int (2 ^ 53 - 1) * pow2 971"
      using pow2_pos [of 971] by (simp add: mult_right_mono)
    then show ?thesis by (simp add: u max_double_eq)
  qed
qed

lemma round_double_bounded:
  assumes "\<bar>x\<bar> \<le> max_double"
  shows "\<exists>r. round_double x = Fin r \<and> \<bar>r\<bar> \<le> max_double \<and> (0 \<le> x \<longrightarrow> 0 \<le> r) \<and> (x \<le> 0 \<longrightarrow> r \<le> 0)"
proof (cases "x = 0")
  case True
  then show ?thesis using max_double_bounds(3) by (simp add: round_double_def)
next
  case False
  let ?u = "pow2 (max (floor_log2 \<bar>x\<bar>) (- 1022) - 52)"
  let ?r = "rat_of_int (round_half_even (\<bar>x\<bar> / ?u)) * ?u"
  from False have a: "0 < \<bar>x\<bar>" by simp
  have le: "?r \<le> max_double" using a assms by (rule rounded_le_max)
  have "0 \<le> \<bar>x\<bar> / ?u" using pow2_pos [of "max (floor_log2 \<bar>x\<bar>) (- 1022) - 52"] by simp
  then have "0 \<le> round_half_even (\<bar>x\<bar> / ?u)" by (rule round_half_even_nonneg)
  then have ge: "0 \<le> ?r" using pow2_pos [of "max (floor_log2 \<bar>x\<bar>) (- 1022) - 52"] by simp
  from le max_double_bounds(2) have n: "\<not> pow2 1024 \<le> ?r" by linarith
  have "round_double x = Fin (if x < 0 then - ?r else ?r)"
    by (subst round_double_unfold [OF False]) (use n in simp)
  with le ge False show ?thesis by (cases "x < 0") auto
qed

lemma pow2_split_low: "pow2 e = 2 ^ 52 * pow2 (e - 52)"
proof -
  have "e = 52 + (e - 52)" by simp
  then have "pow2 e = pow2 (52 + (e - 52))" by (simp only:)
  also have "\<dots> = pow2 52 * pow2 (e - 52)" by (rule pow2_add)
  finally show ?thesis by (simp add: pow2_numeral)
qed

lemma rounded_ge:
  assumes "0 < a"
  shows "pow2 (floor_log2 a)
           \<le> of_int (round_half_even (a / pow2 (floor_log2 a - 52))) * pow2 (floor_log2 a - 52)"
proof -
  let ?e = "floor_log2 a"
  from floor_log2_bounds [OF assms] have "2 ^ 52 * pow2 (?e - 52) \<le> a"
    using pow2_split_low [of ?e] by simp
  then have "2 ^ 52 \<le> a / pow2 (?e - 52)"
    using pow2_pos [of "?e - 52"] by (simp add: pos_le_divide_eq)
  then have "rat_of_int (2 ^ 52) \<le> a / pow2 (?e - 52)" by simp
  then have "2 ^ 52 \<le> round_half_even (a / pow2 (?e - 52))" by (rule round_half_even_ge)
  then have "rat_of_int (2 ^ 52) \<le> rat_of_int (round_half_even (a / pow2 (?e - 52)))"
    by (simp only: of_int_le_iff)
  then have "rat_of_int (2 ^ 52) * pow2 (?e - 52)
               \<le> rat_of_int (round_half_even (a / pow2 (?e - 52))) * pow2 (?e - 52)"
    using pow2_pos [of "?e - 52"] by (simp add: mult_right_mono)
  then show ?thesis using pow2_split_low [of ?e] by simp
qed

lemma round_double_Fin_bounded:
  assumes "round_double x = Fin q"
  shows "\<bar>q\<bar> \<le> max_double"
proof (cases "x = 0")
  case True
  with assms max_double_bounds(3) show ?thesis by (simp add: round_double_def)
next
  case False
  let ?a = "\<bar>x\<bar>"
  let ?e = "max (floor_log2 ?a) (- 1022)"
  let ?u = "pow2 (?e - 52)"
  let ?m = "round_half_even (?a / ?u)"
  let ?r = "rat_of_int ?m * ?u"
  from False have a: "0 < ?a" by simp
  from assms round_double_unfold [OF False] have lt: "?r < pow2 1024" and q: "\<bar>q\<bar> = \<bar>?r\<bar>"
    by (auto split: if_splits)
  have "0 \<le> ?a / ?u" using pow2_pos [of "?e - 52"] by simp
  then have "0 \<le> ?m" by (rule round_half_even_nonneg)
  then have ge: "0 \<le> ?r" using pow2_pos [of "?e - 52"] by simp
  have e: "?e \<le> 1023"
  proof (rule ccontr)
    assume "\<not> ?e \<le> 1023"
    then have big: "1024 \<le> floor_log2 ?a" and same: "?e = floor_log2 ?a" by auto
    from rounded_ge [OF a] same have "pow2 (floor_log2 ?a) \<le> ?r" by simp
    moreover from big have "pow2 1024 \<le> pow2 (floor_log2 ?a)" by (rule pow2_mono)
    ultimately show False using lt by linarith
  qed
  have fe: "floor_log2 ?a \<le> ?e" by simp
  have "?r \<le> max_double"
  proof (cases "?e = 1023")
    case False
    with e have "?e + 1 \<le> 1023" by linarith
    then have "pow2 (?e + 1) \<le> pow2 1023" by (rule pow2_mono)
    with rounded_le [OF a fe] max_double_bounds(1) show ?thesis by linarith
  next
    case True
    then have u: "?u = pow2 971" by simp
    have "pow2 1024 = 2 ^ 53 * pow2 971" using pow2_split [of 1023] by simp
    with lt u have "rat_of_int ?m * pow2 971 < 2 ^ 53 * pow2 971" by simp
    then have "rat_of_int ?m < 2 ^ 53" using pow2_pos [of 971] by simp
    then have "rat_of_int ?m < rat_of_int (2 ^ 53)" by simp
    then have "?m < 2 ^ 53" by (simp only: of_int_less_iff)
    then have "?m \<le> 2 ^ 53 - 1" by simp
    then have "rat_of_int ?m \<le> rat_of_int (2 ^ 53 - 1)" by (simp only: of_int_le_iff)
    then have "rat_of_int ?m * pow2 971 \<le> rat_of_int (2 ^ 53 - 1) * pow2 971"
      using pow2_pos [of 971] by (simp add: mult_right_mono)
    then show ?thesis by (simp add: u max_double_eq)
  qed
  with ge q show ?thesis by simp
qed

text \<open>The rounding of a positive number, once its exponent is known.\<close>

lemma round_double_eval:
  "0 < x \<Longrightarrow> floor_log2 x = e \<Longrightarrow> - 1022 \<le> e \<Longrightarrow> pow2 (e - 52) = u
     \<Longrightarrow> round_half_even (x / u) = m \<Longrightarrow> of_int m * u = r \<Longrightarrow> r < 2 ^ 1024
     \<Longrightarrow> round_double x = Fin r"
  by (auto simp: round_double_def Let_def pow2_def)

lemma round_double_one: "round_double 1 = Fin 1"
proof (rule round_double_eval)
  show "(0::rat) < 1" by simp
  show "floor_log2 1 = 0" by (simp add: floor_log2_def ilog2.simps)
  show "- 1022 \<le> (0 :: int)" by simp
  show "pow2 (0 - 52) = 1 / 2 ^ 52" by (simp add: pow2_def)
  show "round_half_even (1 / (1 / 2 ^ 52)) = 2 ^ 52"
    by (simp add: round_half_even_def Let_def)
  show "of_int (2 ^ 52) * (1 / 2 ^ 52) = (1 :: rat)" by simp
  show "(1 :: rat) < 2 ^ 1024" by simp
qed

lemma round_double_unit:
  assumes "0 \<le> x" and "x \<le> 1" and "round_double x = Fin q"
  shows "0 \<le> q \<and> q \<le> 1"
proof -
  from assms(2) max_double_bounds(1) pow2_mono [of 0 1023] have "\<bar>x\<bar> \<le> max_double"
    using assms(1) by (simp add: pow2_def)
  from round_double_bounded [OF this] assms(1,3) have nonneg: "0 \<le> q" by auto
  have "q \<le> 1"
  proof (cases "x = 0 \<or> x = 1")
    case True
    then show ?thesis
    proof
      assume "x = 0"
      with assms(3) show ?thesis by (simp add: round_double_def)
    next
      assume "x = 1"
      with assms(3) round_double_one show ?thesis by simp
    qed
  next
    case False
    with assms(1,2) have x: "0 < x" "x < 1" by auto
    let ?e = "max (floor_log2 \<bar>x\<bar>) (- 1022)"
    from floor_log2_bounds [of x] x have "pow2 (floor_log2 x) < pow2 0" by (simp add: pow2_def)
    then have "floor_log2 x < 0" by (rule pow2_less_exp)
    then have "?e + 1 \<le> 0" using x by simp
    then have "pow2 (?e + 1) \<le> pow2 0" by (rule pow2_mono)
    then have le1: "pow2 (?e + 1) \<le> 1" by (simp add: pow2_def)
    have "0 < \<bar>x\<bar>" "floor_log2 \<bar>x\<bar> \<le> ?e" using x by simp_all
    from rounded_le [OF this] le1
    have r: "rat_of_int (round_half_even (\<bar>x\<bar> / pow2 (?e - 52))) * pow2 (?e - 52) \<le> 1" by linarith
    from x have "x \<noteq> 0" by simp
    from assms(3) round_double_unfold [OF this] x
    have "q = rat_of_int (round_half_even (\<bar>x\<bar> / pow2 (?e - 52))) * pow2 (?e - 52)"
      by (auto split: if_splits)
    with r show ?thesis by simp
  qed
  with nonneg show ?thesis by simp
qed

section \<open>Evaluating the amounts of the example bills\<close>

lemma round_tenth: "round_double (1 / 10) = Fin (3602879701896397 / 36028797018963968)"
proof (rule round_double_eval)
  show "(0::rat) < 1 / 10" by simp
  show "floor_log2 (1 / 10) = - 4" by (simp add: floor_log2_def pow2_def Let_def ilog2.simps)
  show "- 1022 \<le> (- 4 :: int)" by simp
  show "pow2 (- 4 - 52) = 1 / 2 ^ 56" by (simp add: pow2_def)
  show "round_half_even (1 / 10 / (1 / 2 ^ 56)) = 7205759403792794"
    by (simp add: round_half_even_def Let_def floor_numeral_div)
  show "of_int 7205759403792794 * (1 / 2 ^ 56) = (3602879701896397 / 36028797018963968 :: rat)" by simp
  show "(3602879701896397 / 36028797018963968 :: rat) < 2 ^ 1024" by simp
qed

lemma round_350: "round_double 350 = Fin 350"
proof (rule round_double_eval)
  show "(0::rat) < 350" by simp
  show "floor_log2 350 = 8" by (simp add: floor_log2_def ilog2.simps)
  show "- 1022 \<le> (8 :: int)" by simp
  show "pow2 (8 - 52) = 1 / 2 ^ 44" by (simp add: pow2_def)
  show "round_half_even (350 / (1 / 2 ^ 44)) = 350 * 2 ^ 44"
    by (simp add: round_half_even_def Let_def)
  show "of_int (350 * 2 ^ 44) * (1 / 2 ^ 44) = (350 :: rat)" by simp
  show "(350 :: rat) < 2 ^ 1024" by simp
qed

lemma round_discount: "round_double (350 * (3602879701896397 / 36028797018963968)) = Fin 35"
proof (rule round_double_eval)
  show "(0::rat) < 350 * (3602879701896397 / 36028797018963968)" by simp
  show "floor_log2 (350 * (3602879701896397 / 36028797018963968)) = 5"
    by (simp add: floor_log2_def floor_numeral_div ilog2.simps)
  show "- 1022 \<le> (5 :: int)" by simp
  show "pow2 (5 - 52) = 1 / 2 ^ 47" by (simp add: pow2_def)
  show "round_half_even (350 * (3602879701896397 / 36028797018963968) / (1 / 2 ^ 47)) = 35 * 2 ^ 47"
    by (simp add: round_half_even_def Let_def floor_numeral_div)
  show "of_int (35 * 2 ^ 47) * (1 / 2 ^ 47) = (35 :: rat)" by simp
  show "(35 :: rat) < 2 ^ 1024" by simp
qed

lemma round_due: "round_double (350 - 35) = Fin 315"
proof (rule round_double_eval)
  show "(0::rat) < 350 - 35" by simp
  show "floor_log2 (350 - 35) = 8" by (simp add: floor_log2_def ilog2.simps)
  show "- 1022 \<le> (8 :: int)" by simp
  show "pow2 (8 - 52) = 1 / 2 ^ 44" by (simp add: pow2_def)
  show "round_half_even ((350 - 35) / (1 / 2 ^ 44)) = 315 * 2 ^ 44"
    by (simp add: round_half_even_def Let_def)
  show "of_int (315 * 2 ^ 44) * (1 / 2 ^ 44) = (315 :: rat)" by simp
  show "(315 :: rat) < 2 ^ 1024" by simp
qed

lemma format_350: "format_2f (Fin 350) = ''350.00''"
  by (simp add: format_2f_def round_half_even_def Let_def digit_char_def str_nat.simps)
lemma format_minus_35: "format_2f (Fin (- 35)) = ''-35.00''"
  by (simp add: format_2f_def round_half_even_def Let_def digit_char_def str_nat.simps)
lemma format_315: "format_2f (Fin 315) = ''315.00''"
  by (simp add: format_2f_def round_half_even_def Let_def digit_char_def str_nat.simps)
lemma str_int_examples: "str_int 100 = ''100''" "str_int 250 = ''250''" "str_int 10 = ''10''"
  by (simp_all add: str_int_def digit_char_def str_nat.simps)

lemma round_100: "round_double 100 = Fin 100"
proof (rule round_double_eval)
  show "(0::rat) < 100" by simp
  show "floor_log2 100 = 6" by (simp add: floor_log2_def ilog2.simps)
  show "- 1022 \<le> (6 :: int)" by simp
  show "pow2 (6 - 52) = 1 / 2 ^ 46" by (simp add: pow2_def)
  show "round_half_even (100 / (1 / 2 ^ 46)) = 100 * 2 ^ 46"
    by (simp add: round_half_even_def Let_def)
  show "of_int (100 * 2 ^ 46) * (1 / 2 ^ 46) = (100 :: rat)" by simp
  show "(100 :: rat) < 2 ^ 1024" by simp
qed

lemma format_100: "format_2f (Fin 100) = ''100.00''"
  by (simp add: format_2f_def round_half_even_def Let_def digit_char_def str_nat.simps)

section \<open>Properties of the formatting\<close>

lemma is_digit_digit_char: "is_digit (digit_char n)"
proof -
  have "n mod 10 < 10" by simp
  then have "n mod 10 = 0 \<or> n mod 10 = 1 \<or> n mod 10 = 2 \<or> n mod 10 = 3 \<or> n mod 10 = 4
      \<or> n mod 10 = 5 \<or> n mod 10 = 6 \<or> n mod 10 = 7 \<or> n mod 10 = 8 \<or> n mod 10 = 9"
    by presburger
  then show ?thesis
    by (elim disjE) (simp_all add: digit_char_def is_digit_def)
qed

lemma str_nat_digits: "str_nat n \<noteq> [] \<and> list_all is_digit (str_nat n)"
proof (induction n rule: str_nat.induct)
  case (1 n)
  show ?case
  proof (cases "n < 10")
    case True
    then show ?thesis by (subst (1 2) str_nat.simps) (simp add: is_digit_digit_char)
  next
    case False
    with 1 show ?thesis by (subst (1 2) str_nat.simps) (simp add: is_digit_digit_char)
  qed
qed

lemma is_int_text_sign: "is_int_text (str_nat k)" "is_int_text (CHR ''-'' # str_nat k)"
  using str_nat_digits [of k]
  by (cases "str_nat k"; auto simp: is_int_text_def is_digit_def)+

lemma two_decimals_format_2f: "two_decimals (format_2f (Fin q))"
  by (simp add: two_decimals_def format_2f_def Let_def is_int_text_sign is_digit_digit_char)

lemma not_two_decimals_str_int: "\<not> two_decimals (str_int n)"
proof -
  have "CHR ''.'' \<notin> set (str_int n)"
    using str_nat_digits [of "nat n"] str_nat_digits [of "nat (- n)"]
    by (auto simp: str_int_def list_all_iff is_digit_def)
  moreover have "two_decimals s \<Longrightarrow> CHR ''.'' \<in> set s" for s
  proof -
    assume "two_decimals s"
    then have "CHR ''.'' \<in> set (rev s)"
      by (auto simp: two_decimals_def split: list.splits)
    then show ?thesis by simp
  qed
  ultimately show ?thesis by blast
qed

lemma treatment_loop_eq:
  "treatment_loop ts (lines, tot) = (lines @ map treatment_line ts, tot + sum_list (map snd ts))"
  by (induction ts arbitrary: lines tot) auto

lemma num_format_2f_int: "num_format_2f (PyInt n) = Inr s \<Longrightarrow> two_decimals s"
  by (auto simp: num_format_2f_def two_decimals_format_2f split: sum.splits)

lemma num_format_2f_finite: "num_format_2f v = Inr s \<Longrightarrow> num_finite v \<Longrightarrow> two_decimals s"
  by (auto simp: num_format_2f_def num_finite_def two_decimals_format_2f
           split: sum.splits pynum.splits pyfloat.splits)

lemma num_finite_neg: "num_finite (num_neg v) = num_finite v"
  by (auto simp: num_finite_def num_neg_def fneg_def split: pynum.splits pyfloat.splits)

section \<open>Properties of the bill\<close>

lemma tenth_rate: "int_truediv 10 100 = Inr (3602879701896397 / 36028797018963968)"
  using round_tenth by (simp add: int_truediv_def)

lemma float_350: "float_of_int 350 = Inr 350"
  using round_350 by (simp add: float_of_int_def)

lemma discount_35: "fmul 350 (3602879701896397 / 36028797018963968) = Fin 35"
  using round_discount by (simp add: fmul_def)

lemma due_315: "fsub 350 (Fin 35) = Fin 315"
  using round_due by (simp add: fsub_def)

lemma vip_amounts:
  "bill_amounts \<lparr>p_name = n, p_phone = ph, treatments = ts, prescription = rx,
       patient_type = ''VIP'', vip_discount = 10\<rparr> 350 = Inr (PyFloat (Fin 35), PyFloat (Fin 315))"
  by (simp add: bill_amounts_def tenth_rate float_350 discount_35 due_315)

lemma bill_amounts_finite:
  assumes "patient_type p = ''VIP'' \<longrightarrow> 0 \<le> vip_discount p \<and> vip_discount p \<le> 100"
    and "bill_amounts p tot = Inr (discount, after)"
  shows "num_finite discount \<and> num_finite after"
proof (cases "patient_type p = ''VIP''")
  case False
  with assms(2) show ?thesis by (auto simp: bill_amounts_def num_finite_def)
next
  case True
  with assms(1) have d: "0 \<le> vip_discount p" "vip_discount p \<le> 100" by simp_all
  from True assms(2) obtain rate t where
    rate: "round_double (of_int (vip_discount p) / of_int 100) = Fin rate"
    and t: "round_double (of_int tot) = Fin t"
    and discount: "discount = PyFloat (fmul t rate)"
    and after: "after = PyFloat (fsub t (fmul t rate))"
    by (auto simp: bill_amounts_def int_truediv_def float_of_int_def
             split: sum.splits pyfloat.splits)
  from d have "0 \<le> rat_of_int (vip_discount p) / of_int 100"
    "rat_of_int (vip_discount p) / of_int 100 \<le> 1" by simp_all
  from round_double_unit [OF this rate] have r: "0 \<le> rate" "rate \<le> 1" by simp_all
  from round_double_Fin_bounded [OF t] have tb: "\<bar>t\<bar> \<le> max_double" .
  have "\<bar>t * rate\<bar> = \<bar>t\<bar> * rate" using r(1) by (simp add: abs_mult)
  also have "\<dots> \<le> \<bar>t\<bar> * 1" using r(2) by (intro mult_left_mono) simp_all
  finally have "\<bar>t * rate\<bar> \<le> max_double" using tb by simp
  from round_double_bounded [OF this] obtain dd where
    dd: "round_double (t * rate) = Fin dd" "\<bar>dd\<bar> \<le> max_double"
      "0 \<le> t * rate \<longrightarrow> 0 \<le> dd" "t * rate \<le> 0 \<longrightarrow> dd \<le> 0"
    by blast
  have "\<bar>t - dd\<bar> \<le> max_double"
  proof (cases "0 \<le> t")
    case True
    with r(1) dd(3) have "0 \<le> dd" by simp
    with True tb dd(2) show ?thesis by linarith
  next
    case False
    then have "t * rate \<le> 0" using r(1) by (simp add: mult_nonpos_nonneg)
    with dd(4) have "dd \<le> 0" by simp
    with False tb dd(2) show ?thesis by linarith
  qed
  from round_double_bounded [OF this] obtain aa where "round_double (t - dd) = Fin aa" by blast
  with dd(1) discount after show ?thesis
    by (simp add: fmul_def fsub_def num_finite_def)
qed

lemma bill_structure:
  assumes "get_bill_lines now p = Inr ls"
  shows "\<exists>discount after D due.
           bill_amounts p (sum_list (map snd (treatments p))) = Inr (discount, after)
         \<and> ls = header_lines now p @ map treatment_line (treatments p) @ [rule_line CHR ''-'']
                  @ D @ [ljust 35 ''Total Bill'' @ rjust 20 due] @ footer_lines
         \<and> list_all (\<lambda>t. \<not> two_decimals (str_int (snd t))) (treatments p)
         \<and> (num_finite after \<longrightarrow> two_decimals due)
         \<and> (D = []
              \<or> (\<exists>sub disc.
                    D = [ljust 35 ''Subtotal'' @ rjust 20 sub,
                         ljust 35 (''VIP Discount ('' @ str_int (vip_discount p) @ ''%)'')
                           @ rjust 20 disc]
                  \<and> two_decimals sub \<and> (num_finite discount \<longrightarrow> two_decimals disc)))"
proof -
  let ?tot = "sum_list (map snd (treatments p))"
  have loop: "treatment_loop (treatments p) (header_lines now p, 0)
                = (header_lines now p @ map treatment_line (treatments p), ?tot)"
    by (simp add: treatment_loop_eq)
  have plain: "list_all (\<lambda>t. \<not> two_decimals (str_int (snd t))) (treatments p)"
    by (simp add: list_all_iff not_two_decimals_str_int)
  from assms loop obtain discount after where
    am: "bill_amounts p ?tot = Inr (discount, after)"
    by (auto simp: get_bill_lines_def split: sum.splits)
  show ?thesis
  proof (cases "num_positive discount")
    case False
    with assms loop am obtain due where
      "num_format_2f after = Inr due"
      "ls = header_lines now p @ map treatment_line (treatments p) @ [rule_line CHR ''-'']
              @ [] @ [ljust 35 ''Total Bill'' @ rjust 20 due] @ footer_lines"
      by (auto simp: get_bill_lines_def split: sum.splits)
    with am plain show ?thesis
      by - (rule exI [of _ discount], rule exI [of _ after], rule exI [of _ "[]"],
            rule exI [of _ due], simp add: num_format_2f_finite)
  next
    case True
    with assms loop am obtain sub disc due where
      f: "num_format_2f (PyInt ?tot) = Inr sub" "num_format_2f (num_neg discount) = Inr disc"
         "num_format_2f after = Inr due"
      and l: "ls = header_lines now p @ map treatment_line (treatments p) @ [rule_line CHR ''-'']
              @ [ljust 35 ''Subtotal'' @ rjust 20 sub,
                 ljust 35 (''VIP Discount ('' @ str_int (vip_discount p) @ ''%)'') @ rjust 20 disc]
              @ [ljust 35 ''Total Bill'' @ rjust 20 due] @ footer_lines"
      by (auto simp: get_bill_lines_def split: sum.splits)
    have 1: "two_decimals sub" using f(1) by (rule num_format_2f_int)
    have 2: "num_finite discount \<longrightarrow> two_decimals disc"
      using f(2) num_format_2f_finite [of "num_neg discount" disc] by (simp add: num_finite_neg)
    have 3: "num_finite after \<longrightarrow> two_decimals due"
      using f(3) num_format_2f_finite [of after due] by simp
    let ?D = "[ljust 35 ''Subtotal'' @ rjust 20 sub,
               ljust 35 (''VIP Discount ('' @ str_int (vip_discount p) @ ''%)'') @ rjust 20 disc]"
    have 4: "\<exists>sub' disc'.
               ?D = [ljust 35 ''Subtotal'' @ rjust 20 sub',
                     ljust 35 (''VIP Discount ('' @ str_int (vip_discount p) @ ''%)'')
                       @ rjust 20 disc']
             \<and> two_decimals sub' \<and> (num_finite discount \<longrightarrow> two_decimals disc')"
      using 1 2 by blast
    show ?thesis
    proof (rule exI [of _ discount], rule exI [of _ after], rule exI [of _ ?D],
        rule exI [of _ due], intro conjI disjI2)
      show "bill_amounts p ?tot = Inr (discount, after)" by (rule am)
      show "ls = header_lines now p @ map treatment_line (treatments p) @ [rule_line CHR ''-'']
                  @ ?D @ [ljust 35 ''Total Bill'' @ rjust 20 due] @ footer_lines"
        using l by simp
      show "list_all (\<lambda>t. \<not> two_decimals (str_int (snd t))) (treatments p)" by (rule plain)
      show "num_finite after \<longrightarrow> two_decimals due" by (rule 3)
      show "\<exists>sub' disc'.
               ?D = [ljust 35 ''Subtotal'' @ rjust 20 sub',
                     ljust 35 (''VIP Discount ('' @ str_int (vip_discount p) @ ''%)'')
                       @ rjust 20 disc']
             \<and> two_decimals sub' \<and> (num_finite discount \<longrightarrow> two_decimals disc')"
        by (rule 4)
    qed
  qed
qed

text \<open>
  C1: the bill with the treatment lines (A, 100) and (B, 250). For a Normal patient the
  lines after the two treatment lines and the rule are the total line with 350.00 and the
  footer: there is no subtotal line and no discount line. For a VIP patient with discount
  10 they are the subtotal line with 350.00, the discount line with -35.00 and the total
  line with 315.00.
\<close>

theorem bill_example:
  "get_bill_lines now
      \<lparr>p_name = n, p_phone = ph, treatments = [(''A'', 100), (''B'', 250)], prescription = rx,
       patient_type = ''Normal'', vip_discount = d\<rparr>
     = Inr (header_lines now
              \<lparr>p_name = n, p_phone = ph, treatments = [(''A'', 100), (''B'', 250)],
               prescription = rx, patient_type = ''Normal'', vip_discount = d\<rparr>
            @ [ljust 35 ''A'' @ rjust 20 ''100'',
               ljust 35 ''B'' @ rjust 20 ''250'',
               rule_line CHR ''-'',
               ljust 35 ''Total Bill'' @ rjust 20 ''350.00'']
            @ footer_lines)
   \<and> get_bill_lines now
      \<lparr>p_name = n, p_phone = ph, treatments = [(''A'', 100), (''B'', 250)], prescription = rx,
       patient_type = ''VIP'', vip_discount = 10\<rparr>
     = Inr (header_lines now
              \<lparr>p_name = n, p_phone = ph, treatments = [(''A'', 100), (''B'', 250)],
               prescription = rx, patient_type = ''VIP'', vip_discount = 10\<rparr>
            @ [ljust 35 ''A'' @ rjust 20 ''100'',
               ljust 35 ''B'' @ rjust 20 ''250'',
               rule_line CHR ''-'',
               ljust 35 ''Subtotal'' @ rjust 20 ''350.00'',
               ljust 35 ''VIP Discount (10%)'' @ rjust 20 ''-35.00'',
               ljust 35 ''Total Bill'' @ rjust 20 ''315.00'']
            @ footer_lines)"
  by (simp add: get_bill_lines_def treatment_line_def bill_amounts_def num_format_2f_def
        num_positive_def num_neg_def fneg_def tenth_rate float_350 discount_35 due_315
        format_350 format_minus_35 format_315 str_int_examples)

text \<open>
  C6, as the code has it: in every rendered bill of a patient whose discount, when the
  patient is VIP, lies between 0 and 100 (the range that the generation of a bill accepts),
  the subtotal, the discount and the total are written with two decimals, and the price of
  each treatment line is written as the plain integer, which never has the form with two
  decimals.
\<close>

theorem bill_money_rendering:
  assumes "get_bill_lines now p = Inr ls"
    and "patient_type p = ''VIP'' \<longrightarrow> 0 \<le> vip_discount p \<and> vip_discount p \<le> 100"
  shows "\<exists>D due.
           ls = header_lines now p @ map treatment_line (treatments p) @ [rule_line CHR ''-'']
                  @ D @ [ljust 35 ''Total Bill'' @ rjust 20 due] @ footer_lines
         \<and> list_all (\<lambda>t. \<not> two_decimals (str_int (snd t))) (treatments p)
         \<and> two_decimals due
         \<and> (D = []
              \<or> (\<exists>sub disc.
                    D = [ljust 35 ''Subtotal'' @ rjust 20 sub,
                         ljust 35 (''VIP Discount ('' @ str_int (vip_discount p) @ ''%)'')
                           @ rjust 20 disc]
                  \<and> two_decimals sub \<and> two_decimals disc))"
proof -
  from bill_structure [OF assms(1)] obtain discount after D due where
    am: "bill_amounts p (sum_list (map snd (treatments p))) = Inr (discount, after)"
    and l: "ls = header_lines now p @ map treatment_line (treatments p) @ [rule_line CHR ''-'']
                  @ D @ [ljust 35 ''Total Bill'' @ rjust 20 due] @ footer_lines"
    and pl: "list_all (\<lambda>t. \<not> two_decimals (str_int (snd t))) (treatments p)"
    and d: "num_finite after \<longrightarrow> two_decimals due"
    and dd: "D = [] \<or> (\<exists>sub disc.
                    D = [ljust 35 ''Subtotal'' @ rjust 20 sub,
                         ljust 35 (''VIP Discount ('' @ str_int (vip_discount p) @ ''%)'')
                           @ rjust 20 disc]
                  \<and> two_decimals sub \<and> (num_finite discount \<longrightarrow> two_decimals disc))"
    by blast
  from bill_amounts_finite [OF assms(2) am] have fin: "num_finite discount" "num_finite after"
    by simp_all
  from d fin have 1: "two_decimals due" by simp
  from dd fin have 2: "D = [] \<or> (\<exists>sub disc.
                    D = [ljust 35 ''Subtotal'' @ rjust 20 sub,
                         ljust 35 (''VIP Discount ('' @ str_int (vip_discount p) @ ''%)'')
                           @ rjust 20 disc]
                  \<and> two_decimals sub \<and> two_decimals disc)" by simp
  from l pl 1 2 show ?thesis by blast
qed

theorem bill_money_rendering_witness:
  "get_bill_lines ''01-06-2024 10:30 AM''
      \<lparr>p_name = ''Ann'', p_phone = ''123'', treatments = [(''A'', 100), (''B'', 250)],
       prescription = [], patient_type = ''VIP'', vip_discount = 10\<rparr>
     = Inr (header_lines ''01-06-2024 10:30 AM''
              \<lparr>p_name = ''Ann'', p_phone = ''123'', treatments = [(''A'', 100), (''B'', 250)],
               prescription = [], patient_type = ''VIP'', vip_discount = 10\<rparr>
            @ [ljust 35 ''A'' @ rjust 20 ''100'',
               ljust 35 ''B'' @ rjust 20 ''250'',
               rule_line CHR ''-'',
               ljust 35 ''Subtotal'' @ rjust 20 ''350.00'',
               ljust 35 ''VIP Discount (10%)'' @ rjust 20 ''-35.00'',
               ljust 35 ''Total Bill'' @ rjust 20 ''315.00'']
            @ footer_lines)
   \<and> (0::int) \<le> 10 \<and> (10::int) \<le> 100
   \<and> list_all (\<lambda>t. \<not> two_decimals (str_int (snd t))) [(''A'', 100), (''B'', 250)]
   \<and> (\<exists>D due.
         header_lines ''01-06-2024 10:30 AM''
              \<lparr>p_name = ''Ann'', p_phone = ''123'', treatments = [(''A'', 100), (''B'', 250)],
               prescription = [], patient_type = ''VIP'', vip_discount = 10\<rparr>
            @ [ljust 35 ''A'' @ rjust 20 ''100'',
               ljust 35 ''B'' @ rjust 20 ''250'',
               rule_line CHR ''-'',
               ljust 35 ''Subtotal'' @ rjust 20 ''350.00'',
               ljust 35 ''VIP Discount (10%)'' @ rjust 20 ''-35.00'',
               ljust 35 ''Total Bill'' @ rjust 20 ''315.00'']
            @ footer_lines
         = header_lines ''01-06-2024 10:30 AM''
              \<lparr>p_name = ''Ann'', p_phone = ''123'', treatments = [(''A'', 100), (''B'', 250)],
               prescription = [], patient_type = ''VIP'', vip_discount = 10\<rparr>
            @ map treatment_line [(''A'', 100), (''B'', 250)] @ [rule_line CHR ''-'']
            @ D @ [ljust 35 ''Total Bill'' @ rjust 20 due] @ footer_lines
       \<and> two_decimals due
       \<and> (D = [] \<or> (\<exists>sub disc.
             D = [ljust 35 ''Subtotal'' @ rjust 20 sub,
                  ljust 35 (''VIP Discount ('' @ str_int 10 @ ''%)'') @ rjust 20 disc]
             \<and> two_decimals sub \<and> two_decimals disc)))"
proof -
  let ?p = "\<lparr>p_name = ''Ann'', p_phone = ''123'', treatments = [(''A'', 100), (''B'', 250)],
       prescription = [], patient_type = ''VIP'', vip_discount = 10\<rparr>"
  let ?ls = "header_lines ''01-06-2024 10:30 AM'' ?p
            @ [ljust 35 ''A'' @ rjust 20 ''100'',
               ljust 35 ''B'' @ rjust 20 ''250'',
               rule_line CHR ''-'',
               ljust 35 ''Subtotal'' @ rjust 20 ''350.00'',
               ljust 35 ''VIP Discount (10%)'' @ rjust 20 ''-35.00'',
               ljust 35 ''Total Bill'' @ rjust 20 ''315.00'']
            @ footer_lines"
  have g: "get_bill_lines ''01-06-2024 10:30 AM'' ?p = Inr ?ls"
    by (simp add: get_bill_lines_def treatment_line_def vip_amounts num_format_2f_def
        num_positive_def num_neg_def fneg_def float_350 format_350 format_minus_35 format_315
        str_int_examples)
  have r: "patient_type ?p = ''VIP'' \<longrightarrow> 0 \<le> vip_discount ?p \<and> vip_discount ?p \<le> 100"
    by simp
  from bill_money_rendering [OF g r] obtain D due where
    l: "?ls = header_lines ''01-06-2024 10:30 AM'' ?p @ map treatment_line (treatments ?p)
                 @ [rule_line CHR ''-''] @ D @ [ljust 35 ''Total Bill'' @ rjust 20 due] @ footer_lines"
    and pl: "list_all (\<lambda>t. \<not> two_decimals (str_int (snd t))) (treatments ?p)"
    and 1: "two_decimals due"
    and dd: "D = [] \<or> (\<exists>sub disc.
             D = [ljust 35 ''Subtotal'' @ rjust 20 sub,
                  ljust 35 (''VIP Discount ('' @ str_int (vip_discount ?p) @ ''%)'') @ rjust 20 disc]
             \<and> two_decimals sub \<and> two_decimals disc)"
    by blast
  from dd have 2: "D = [] \<or> (\<exists>sub disc.
             D = [ljust 35 ''Subtotal'' @ rjust 20 sub,
                  ljust 35 (''VIP Discount ('' @ str_int 10 @ ''%)'') @ rjust 20 disc]
             \<and> two_decimals sub \<and> two_decimals disc)" by simp
  from pl have 3: "list_all (\<lambda>t. \<not> two_decimals (str_int (snd t))) [(''A'', 100), (''B'', 250)]"
    by simp
  from l have 4: "?ls = header_lines ''01-06-2024 10:30 AM'' ?p
                 @ map treatment_line [(''A'', 100), (''B'', 250)]
                 @ [rule_line CHR ''-''] @ D @ [ljust 35 ''Total Bill'' @ rjust 20 due] @ footer_lines"
    by simp
  from 4 1 2 have "\<exists>D due. ?ls = header_lines ''01-06-2024 10:30 AM'' ?p
                 @ map treatment_line [(''A'', 100), (''B'', 250)]
                 @ [rule_line CHR ''-''] @ D @ [ljust 35 ''Total Bill'' @ rjust 20 due] @ footer_lines
       \<and> two_decimals due
       \<and> (D = [] \<or> (\<exists>sub disc.
             D = [ljust 35 ''Subtotal'' @ rjust 20 sub,
                  ljust 35 (''VIP Discount ('' @ str_int 10 @ ''%)'') @ rjust 20 disc]
             \<and> two_decimals sub \<and> two_decimals disc))"
    by blast
  with g 3 show ?thesis by simp
qed

text \<open>
  C6 as stated fails on the treatment line: the price 100 is rendered as 100, while the
  total of the same bill is rendered as 100.00.
\<close>

theorem bill_line_price_counterexample:
  "get_bill_lines ''01-06-2024 10:30 AM''
      \<lparr>p_name = ''Ann'', p_phone = ''123'', treatments = [(''A'', 100)], prescription = [],
       patient_type = ''Normal'', vip_discount = 0\<rparr>
     = Inr (header_lines ''01-06-2024 10:30 AM''
              \<lparr>p_name = ''Ann'', p_phone = ''123'', treatments = [(''A'', 100)], prescription = [],
               patient_type = ''Normal'', vip_discount = 0\<rparr>
            @ [ljust 35 ''A'' @ rjust 20 ''100'',
               rule_line CHR ''-'',
               ljust 35 ''Total Bill'' @ rjust 20 ''100.00'']
            @ footer_lines)
   \<and> \<not> two_decimals ''100'' \<and> two_decimals ''100.00''"
  by (simp add: get_bill_lines_def treatment_line_def bill_amounts_def num_format_2f_def
        num_positive_def float_of_int_def round_100 format_100 str_int_def str_nat.simps digit_char_def
        two_decimals_def is_int_text_def is_digit_def)

section \<open>Properties of generating, printing and saving\<close>

text \<open>
  While \<open>self.patient\<close> is \<open>None\<close>, printing and saving to a file each end in the error
  dialog that asks to generate first, and that dialog is their only effect. It is \<open>None\<close>
  at start and after a reset, and a generation that ends in one of its own error dialogs
  leaves the session as it was.
\<close>

lemma not_ready:
  "patient s = None \<Longrightarrow>
     print_bill_and_prescription ev s
       = Inr [Dialog (ShowError ''Error'' ''Generate bill and prescription first before printing.'')]
     \<and> save_to_txt ev s
       = Inr [Dialog (ShowError ''Error'' ''Generate bill and prescription first before saving.'')]"
  by (simp add: print_bill_and_prescription_def save_to_txt_def)

lemma no_patient_at_start: "patient init_session = None" "patient (reset_all s) = None"
  by (simp_all add: init_session_def reset_all_def)

lemma generate_rejects:
  "vip_discount_var f = Some discount \<Longrightarrow>
   strip (entry_name f) = [] \<or> strip (entry_phone f) = [] \<or> selected_treatments f = []
     \<or> (patient_type_var f = ''VIP'' \<and> (discount < 0 \<or> 100 < discount))
   \<Longrightarrow> snd (generate_bill_prescription ev f s) = s"
  by (auto simp: generate_bill_prescription_def Let_def)

lemma generate_sets_patient:
  "generate_bill_prescription ev f s = (Inr effects, s') \<Longrightarrow> s' \<noteq> s
     \<Longrightarrow> \<exists>p bill. patient s' = Some p \<and> get_bill_text (now_text ev) p = Inr bill
           \<and> text_output s' = bill @ [CHR 0x0A, CHR 0x0A] @ get_prescription_text (now_text ev) p"
  by (auto simp: generate_bill_prescription_def render_and_record_def Let_def
           split: option.splits if_splits prod.splits sum.splits)

text \<open>
  C8: printing and saving a file before a bill has been generated fail with an error
  dialog, with no file written and nothing sent to the printer. The code tests
  \<open>self.patient\<close> for that, and \<open>generate_bill_prescription\<close> assigns \<open>self.patient\<close>
  before it reads the prices. The theorem evaluates a first session: the name Ann, a phone
  number, the treatment Botox selected and its price box emptied. Generate raises
  \<open>TclError\<close> at the price, no bill is shown and no record is written, yet the patient is
  set; Print then sends a bill with no treatment line and the total 0.00 to the printer, and
  Save writes that text to a file.
\<close>

theorem print_after_failed_generate:
  "generate_bill_prescription
      \<lparr>now_text = ''01-06-2024 10:30 AM'', file_stamp = ''20240601_103000'',
       date_folder = ''2024-06-01'', time_stamp = ''103000'',
       can_mkdir = True, can_write = True, can_print = True\<rparr>
      \<lparr>entry_name = ''Ann'', entry_phone = ''0300123456'', patient_type_var = ''Normal'',
       vip_discount_var = Some 10, selected_treatments = [''Botox''],
       treatment_price_vars = [(''Botox'', None)], text_prescription = [], confirm_phone = False\<rparr>
      init_session
     = (Inl TclError,
        \<lparr>patient = Some \<lparr>p_name = ''Ann'', p_phone = ''0300123456'', treatments = [],
                         prescription = [], patient_type = ''Normal'', vip_discount = 0\<rparr>,
         text_output = []\<rparr>)
   \<and> print_bill_and_prescription
      \<lparr>now_text = ''01-06-2024 10:30 AM'', file_stamp = ''20240601_103000'',
       date_folder = ''2024-06-01'', time_stamp = ''103000'',
       can_mkdir = True, can_write = True, can_print = True\<rparr>
      \<lparr>patient = Some \<lparr>p_name = ''Ann'', p_phone = ''0300123456'', treatments = [],
                       prescription = [], patient_type = ''Normal'', vip_discount = 0\<rparr>,
       text_output = []\<rparr>
     = Inr [TempFile
              (join_lines
                 (header_lines ''01-06-2024 10:30 AM''
                    \<lparr>p_name = ''Ann'', p_phone = ''0300123456'', treatments = [],
                     prescription = [], patient_type = ''Normal'', vip_discount = 0\<rparr>
                  @ [rule_line CHR ''-'', ljust 35 ''Total Bill'' @ rjust 20 ''0.00'']
                  @ footer_lines)
               @ [CHR 0x0A, CHR 0x0A]
               @ get_prescription_text ''01-06-2024 10:30 AM''
                   \<lparr>p_name = ''Ann'', p_phone = ''0300123456'', treatments = [],
                    prescription = [], patient_type = ''Normal'', vip_discount = 0\<rparr>),
            PrintJob, Dialog (ShowInfo ''Success'' ''Document sent to printer''), RemoveLater]
   \<and> save_to_txt
      \<lparr>now_text = ''01-06-2024 10:30 AM'', file_stamp = ''20240601_103000'',
       date_folder = ''2024-06-01'', time_stamp = ''103000'',
       can_mkdir = True, can_write = True, can_print = True\<rparr>
      \<lparr>patient = Some \<lparr>p_name = ''Ann'', p_phone = ''0300123456'', treatments = [],
                       prescription = [], patient_type = ''Normal'', vip_discount = 0\<rparr>,
       text_output = []\<rparr>
     = Inr [MakeDir ''txt'',
            WriteFile ''txt/bill_prescription_20240601_103000.txt''
              (join_lines
                 (header_lines ''01-06-2024 10:30 AM''
                    \<lparr>p_name = ''Ann'', p_phone = ''0300123456'', treatments = [],
                     prescription = [], patient_type = ''Normal'', vip_discount = 0\<rparr>
                  @ [rule_line CHR ''-'', ljust 35 ''Total Bill'' @ rjust 20 ''0.00'']
                  @ footer_lines)
               @ [CHR 0x0A, CHR 0x0A]
               @ get_prescription_text ''01-06-2024 10:30 AM''
                   \<lparr>p_name = ''Ann'', p_phone = ''0300123456'', treatments = [],
                    prescription = [], patient_type = ''Normal'', vip_discount = 0\<rparr>),
            Dialog (ShowInfo ''Success''
              (''Bill and prescription saved to:'' @ CHR 0x0A # ''txt/bill_prescription_20240601_103000.txt''))]"
proof -
  let ?p = "\<lparr>p_name = ''Ann'', p_phone = ''0300123456'', treatments = [],
             prescription = [], patient_type = ''Normal'', vip_discount = 0\<rparr>"
  have g: "strip ''Ann'' = ''Ann''" "strip ''0300123456'' = ''0300123456''"
    by (simp_all add: strip_def is_space_def)
  have u: "phone_usual ''0300123456''"
    by (simp add: phone_usual_def phone_char_def is_digit_def)
  have z: "format_2f (Fin 0) = ''0.00''"
    by (simp add: format_2f_def round_half_even_def str_nat.simps digit_char_def)
  have b: "get_bill_text ''01-06-2024 10:30 AM'' ?p
             = Inr (join_lines (header_lines ''01-06-2024 10:30 AM'' ?p
                      @ [rule_line CHR ''-'', ljust 35 ''Total Bill'' @ rjust 20 ''0.00'']
                      @ footer_lines))"
    by (simp add: get_bill_text_def get_bill_lines_def bill_amounts_def num_positive_def
          num_format_2f_def float_of_int_def round_double_def z)
  show ?thesis
    by (simp add: generate_bill_prescription_def g u init_session_def Let_def
          print_bill_and_prescription_def save_to_txt_def combined_text_def b print_text_def)
qed

section \<open>What follows from a date without leading zeros\<close>

text \<open>
  The reminder compares the stored text with the zero-padded text of tomorrow's date, and
  the upcoming list is sorted by the stored text. An appointment stored as 2099-1-5 is
  the fifth of January for \<open>strptime\<close>, yet the reminder of the day before misses it,
  and it is listed after an appointment of the first of February.
\<close>

lemma unpadded_date_consequences:
  "strptime_ymd ''2099-1-5'' = Some (2099, 1, 5)
   \<and> due_appointments (lib_table [(''stored'', JArr [appt_json ''Ann'' ''123'' ''2099-1-5''])])
        (2099, 1, 5) \<lparr>treatments_file = None, appointments_file = Some ''stored'', writable = True\<rparr>
       = Inr []
   \<and> due_appointments (lib_table [(''stored'', JArr [appt_json ''Ann'' ''123'' ''2099-01-05''])])
        (2099, 1, 5) \<lparr>treatments_file = None, appointments_file = Some ''stored'', writable = True\<rparr>
       = Inr [appt_json ''Ann'' ''123'' ''2099-01-05'']
   \<and> rebuild_upcoming (2024, 6, 1)
        [appt_json ''Ann'' ''123'' ''2099-1-5'', appt_json ''Bob'' ''456'' ''2099-02-01'']
       = [appt_json ''Bob'' ''456'' ''2099-02-01'', appt_json ''Ann'' ''123'' ''2099-1-5'']"
proof -
  have d: "strptime_ymd ''2099-1-5'' = Some (2099, 1, 5)"
    "strptime_ymd ''2099-02-01'' = Some (2099, 2, 1)"
    by (simp_all add: strptime_ymd_def parse_month_day_def is_digit_def digit_val_def
          days_in_month_def is_leap_def)
  have 1: "due_appointments (lib_table [(''stored'', JArr [appt_json ''Ann'' ''123'' ''2099-1-5''])])
        (2099, 1, 5) \<lparr>treatments_file = None, appointments_file = Some ''stored'', writable = True\<rparr>
       = Inr []"
    by (simp add: due_appointments_def load_appointments_def lib_table_def iter_json_def strftime_ymd_def
          pad2_def digit_char_def str_nat.simps
          date_is_def appt_json_def dict_get_def)
  have 2: "due_appointments (lib_table [(''stored'', JArr [appt_json ''Ann'' ''123'' ''2099-01-05''])])
        (2099, 1, 5) \<lparr>treatments_file = None, appointments_file = Some ''stored'', writable = True\<rparr>
       = Inr [appt_json ''Ann'' ''123'' ''2099-01-05'']"
    by (simp add: due_appointments_def load_appointments_def lib_table_def iter_json_def strftime_ymd_def
          pad2_def digit_char_def str_nat.simps
          date_is_def appt_json_def dict_get_def)
  have 3: "rebuild_upcoming (2024, 6, 1)
        [appt_json ''Ann'' ''123'' ''2099-1-5'', appt_json ''Bob'' ''456'' ''2099-02-01'']
       = [appt_json ''Bob'' ''456'' ''2099-02-01'', appt_json ''Ann'' ''123'' ''2099-1-5'']"
    by (simp add: rebuild_upcoming_def is_upcoming_def appt_date_of_def get_default_def
          appt_json_def dict_get_def d date_key_def)
  from d(1) 1 2 3 show ?thesis by simp
qed

end
